theory Spec2Isabelle
  imports Main
begin

section \<open>vscode.ts: event emitters and cancellation\<close>

text \<open>
  The file vscode.ts holds two versions of the shim for the editor API. Both are
  embedded here, the first with suffix 1 and the second with suffix 2.

  A listener is a JavaScript function; the model keeps its identity (a value of the
  type variable \<open>'l\<close>) and records every invocation in a trace, in the order the calls
  are made.
\<close>

subsection \<open>The event emitter of Node's events module\<close>

text \<open>
  Per event name, Node keeps the listeners in an array: \<open>on\<close> appends,
  \<open>removeListener\<close> removes at most one instance, the most recently added one,
  \<open>removeAllListeners\<close> empties the array of the given name and \<open>emit\<close> calls the
  listeners synchronously in the order of registration, working on a copy of the array
  (a listener removed or added during \<open>emit\<close> does not change which listeners that
  \<open>emit\<close> calls). \<open>node_emit\<close> gives the calls of that copy.
\<close>

type_synonym 'l node_emitter = "string \<Rightarrow> 'l list"

definition node_new :: "'l node_emitter" where
  "node_new = (\<lambda>_. [])"

definition remove_last :: "'l \<Rightarrow> 'l list \<Rightarrow> 'l list" where
  "remove_last l ls = rev (remove1 l (rev ls))"

definition node_on :: "string \<Rightarrow> 'l \<Rightarrow> 'l node_emitter \<Rightarrow> 'l node_emitter" where
  "node_on name l em = em(name := em name @ [l])"

definition node_removeListener :: "string \<Rightarrow> 'l \<Rightarrow> 'l node_emitter \<Rightarrow> 'l node_emitter" where
  "node_removeListener name l em = em(name := remove_last l (em name))"

definition node_removeAllListeners :: "string \<Rightarrow> 'l node_emitter \<Rightarrow> 'l node_emitter" where
  "node_removeAllListeners name em = em(name := [])"

definition node_emit :: "string \<Rightarrow> 'd \<Rightarrow> 'l node_emitter \<Rightarrow> ('l \<times> 'd) list" where
  "node_emit name d em = map (\<lambda>l. (l, d)) (em name)"

subsection \<open>What a listener does while it runs\<close>

text \<open>
  A listener is a function that the source calls back. While it runs it may use the
  source it is attached to: dispose a registration (its own or another listener's),
  register a further listener, call \<open>cancel()\<close> or \<open>dispose()\<close> on the source, read
  \<open>token.isCancellationRequested\<close>, and it may throw. A listener is identified by
  its name (a value of the type variable \<open>'l\<close>); \<open>beh\<close>, a parameter of the
  operations below, gives the actions of each named listener in order. A listener that
  is registered by another listener comes with its own actions.
\<close>

datatype 'l action =
    Act_dispose 'l
  | Act_register 'l "'l action list"
  | Act_cancel
  | Act_dispose_source
  | Act_read_flag
  | Act_throw

text \<open>How a call ends, and what a caller sees of a sequence of calls.\<close>

datatype completion = Returned | Threw

datatype js_bool = JUndefined | JBool bool

datatype 'l obs = Invoked 'l | Flag js_bool | Thrown

fun invoked :: "'l obs list \<Rightarrow> 'l list" where
  "invoked [] = []"
| "invoked (Invoked l # tr) = l # invoked tr"
| "invoked (Flag b # tr) = invoked tr"
| "invoked (Thrown # tr) = invoked tr"

subsection \<open>First version: CancellationTokenSource\<close>

record 'l cts1 =
  cts1_cancelled :: bool
  cts1_listeners :: "'l list"

definition new_cts1 :: "'l cts1" where
  "new_cts1 = \<lparr>cts1_cancelled = False, cts1_listeners = []\<rparr>"

text \<open>
  \<open>token\<close> is an object literal with the two keys below. Its accessor
  \<open>isCancellationRequested\<close> is an ordinary (non-arrow) function, so \<open>this\<close> in its
  body is the object the property is read from, the token, and \<open>this._cancelled\<close> is
  looked up among the token's own keys; a read of a property that an object does not
  have gives \<open>undefined\<close>. \<open>onCancellationRequested\<close> is an arrow function: its
  \<open>this\<close> is the source, whose fields it reads and writes.
\<close>

definition token1_keys :: "string list" where
  "token1_keys = [''isCancellationRequested'', ''onCancellationRequested'']"

definition cts1_isCancellationRequested :: "'l cts1 \<Rightarrow> js_bool" where
  "cts1_isCancellationRequested s =
     (if ''_cancelled'' \<in> set token1_keys then JBool (cts1_cancelled s) else JUndefined)"

text \<open>
  \<open>dispose\<close> of the Disposable returned for \<open>listener\<close>: \<open>indexOf\<close> finds the first
  instance in the array that the field \<open>_listeners\<close> holds at that moment, \<open>splice\<close>
  removes it from that array; nothing happens when there is none.
\<close>

definition cts1_listener_dispose :: "'l \<Rightarrow> 'l cts1 \<Rightarrow> 'l cts1" where
  "cts1_listener_dispose l s = s\<lparr>cts1_listeners := remove1 l (cts1_listeners s)\<rparr>"

text \<open>\<open>dispose\<close> of the source stores a new, empty array in the field.\<close>

definition cts1_dispose :: "'l cts1 \<Rightarrow> 'l cts1" where
  "cts1_dispose s = s\<lparr>cts1_listeners := []\<rparr>"

text \<open>
  The \<open>for ... of\<close> loop of \<open>cancel()\<close> walks, by index, the array object that the
  field held when the loop began. A \<open>splice\<close> by a listener changes that very array
  as long as the field still holds it (\<open>Live\<close>); after a \<open>dispose()\<close> of the
  source the field holds another array and the loop goes on over the old one
  (\<open>Detached\<close>), which nothing can change any more.
\<close>

datatype 'l iteration = Not_iterating | Live | Detached "'l list"

definition iterated :: "'l cts1 \<times> 'l iteration \<Rightarrow> 'l list" where
  "iterated h =
     (case snd h of Not_iterating \<Rightarrow> [] | Live \<Rightarrow> cts1_listeners (fst h) | Detached arr \<Rightarrow> arr)"

text \<open>
  The actions of a running listener on the first version. The source calls a listener
  only after it has set \<open>_cancelled\<close> (\<open>cancel()\<close> sets it before its loop,
  \<open>onCancellationRequested\<close> calls the listener only when it is set) and nothing
  resets it. So \<open>cancel()\<close> called by a listener finds the flag set and does nothing,
  and \<open>token.onCancellationRequested(l)\<close> called by a listener calls \<open>l\<close> at once.
  An exception of an action ends the listener, and the caller of the listener with it.
\<close>

fun act1 :: "'l action \<Rightarrow> 'l cts1 \<times> 'l iteration
               \<Rightarrow> ('l cts1 \<times> 'l iteration) \<times> 'l obs list \<times> completion"
  and acts1 :: "'l action list \<Rightarrow> 'l cts1 \<times> 'l iteration
               \<Rightarrow> ('l cts1 \<times> 'l iteration) \<times> 'l obs list \<times> completion" where
  "act1 (Act_dispose a) h = ((cts1_listener_dispose a (fst h), snd h), [], Returned)"
| "act1 (Act_register a body) h =
     (let r = acts1 body h in (fst r, Invoked a # fst (snd r), snd (snd r)))"
| "act1 Act_cancel h = (h, [], Returned)"
| "act1 Act_dispose_source h =
     ((cts1_dispose (fst h),
       (case snd h of Live \<Rightarrow> Detached (cts1_listeners (fst h)) | it \<Rightarrow> it)), [], Returned)"
| "act1 Act_read_flag h = (h, [Flag (cts1_isCancellationRequested (fst h))], Returned)"
| "act1 Act_throw h = (h, [], Threw)"
| "acts1 [] h = (h, [], Returned)"
| "acts1 (a # as) h =
     (let r = act1 a h
      in if snd (snd r) = Threw then r
         else (let r' = acts1 as (fst r) in (fst r', fst (snd r) @ fst (snd r'), snd (snd r'))))"

text \<open>
  \<open>token.onCancellationRequested(listener)\<close>: the new state, what is observed and how
  the call ends.
\<close>

definition cts1_onCancellationRequested ::
  "('l \<Rightarrow> 'l action list) \<Rightarrow> 'l \<Rightarrow> 'l cts1 \<Rightarrow> 'l cts1 \<times> 'l obs list \<times> completion" where
  "cts1_onCancellationRequested beh l s =
     (if cts1_cancelled s
      then (let r = acts1 (beh l) (s, Not_iterating)
            in (fst (fst r), Invoked l # fst (snd r), snd (snd r)))
      else (s\<lparr>cts1_listeners := cts1_listeners s @ [l]\<rparr>, [], Returned))"

text \<open>
  The loop of \<open>cancel()\<close> from index \<open>i\<close> on: it ends when the index has reached the
  length that the array has by then, or when a listener throws.
\<close>

function loop1 ::
  "('l \<Rightarrow> 'l action list) \<Rightarrow> nat \<Rightarrow> 'l cts1 \<times> 'l iteration
     \<Rightarrow> ('l cts1 \<times> 'l iteration) \<times> 'l obs list \<times> completion" where
  "loop1 beh i h =
     (if i < length (iterated h)
      then (let r = acts1 (beh (iterated h ! i)) h
            in if snd (snd r) = Threw
               then (fst r, Invoked (iterated h ! i) # fst (snd r), Threw)
               else (let r' = loop1 beh (Suc i) (fst r)
                     in (fst r', Invoked (iterated h ! i) # fst (snd r) @ fst (snd r'),
                         snd (snd r'))))
      else (h, [], Returned))"
  by pat_completeness auto

termination loop1
proof (relation "measure (\<lambda>(beh, i, h). length (iterated h) - i)")
  show "wf (measure (\<lambda>(beh, i, h). length (iterated h) - i))"
    by simp
next
  fix beh :: "'l \<Rightarrow> 'l action list" and i h r
  assume i: "i < length (iterated h)" and r: "r = acts1 (beh (iterated h ! i)) h"
  have "length (iterated (fst (act1 a k))) \<le> length (iterated k)"
    and len: "length (iterated (fst (acts1 as k))) \<le> length (iterated k)"
    for a :: "'l action" and as k
  proof (induction a k and as k rule: act1_acts1.induct)
    case (1 a h)
    then show ?case
      by (cases h) (auto simp: iterated_def cts1_listener_dispose_def length_remove1
          split: iteration.splits)
  next
    case (4 h)
    then show ?case
      by (cases h) (auto simp: iterated_def cts1_dispose_def split: iteration.splits)
  next
    case (8 a as h)
    then show ?case
      by (auto simp: Let_def intro: order_trans)
  qed (simp_all add: Let_def)
  then have "length (iterated (fst r)) \<le> length (iterated h)"
    unfolding r by simp
  with i show "((beh, Suc i, fst r), beh, i, h) \<in> measure (\<lambda>(beh, i, h). length (iterated h) - i)"
    by simp
qed

declare loop1.simps [simp del]

text \<open>
  \<open>cancel()\<close>: the flag is set first, the loop runs, and the field gets a new, empty
  array unless a listener threw.
\<close>

definition cts1_cancel ::
  "('l \<Rightarrow> 'l action list) \<Rightarrow> 'l cts1 \<Rightarrow> 'l cts1 \<times> 'l obs list \<times> completion" where
  "cts1_cancel beh s =
     (if \<not> cts1_cancelled s
      then (let r = loop1 beh 0 (s\<lparr>cts1_cancelled := True\<rparr>, Live)
            in if snd (snd r) = Threw then (fst (fst r), fst (snd r), Threw)
               else ((fst (fst r))\<lparr>cts1_listeners := []\<rparr>, fst (snd r), Returned))
      else (s, [], Returned))"

subsection \<open>First version: EventEmitter\<close>




record 'l emitter1 =
  e1_emitter :: "'l node_emitter"
  e1_eventName :: string





definition emitter1_dispose :: "'l emitter1 \<Rightarrow> 'l emitter1" where
  "emitter1_dispose e = e\<lparr>e1_emitter := node_removeAllListeners (e1_eventName e) (e1_emitter e)\<rparr>"

subsection \<open>Second version: EventEmitter\<close>

record 'l emitter2 =
  e2_emitter :: "'l node_emitter"

definition new_emitter2 :: "'l emitter2" where
  "new_emitter2 = \<lparr>e2_emitter = node_new\<rparr>"

definition emitter2_event :: "'l \<Rightarrow> 'l emitter2 \<Rightarrow> 'l emitter2" where
  "emitter2_event l e = e\<lparr>e2_emitter := node_on ''event'' l (e2_emitter e)\<rparr>"

definition emitter2_listener_dispose :: "'l \<Rightarrow> 'l emitter2 \<Rightarrow> 'l emitter2" where
  "emitter2_listener_dispose l e = e\<lparr>e2_emitter := node_removeListener ''event'' l (e2_emitter e)\<rparr>"

definition emitter2_fire :: "'d \<Rightarrow> 'l emitter2 \<Rightarrow> ('l \<times> 'd) list" where
  "emitter2_fire d e = node_emit ''event'' d (e2_emitter e)"

subsection \<open>Second version: MutableToken and CancellationTokenSource\<close>

record 'l mutable_token =
  mt_isCancelled :: bool
  mt_emitter :: "'l emitter2 option"

definition new_mutable_token :: "'l mutable_token" where
  "new_mutable_token = \<lparr>mt_isCancelled = False, mt_emitter = None\<rparr>"

text \<open>
  \<open>MutableToken.cancel\<close> sets the flag and fires the emitter. Node's \<open>emit\<close> works
  on a copy of the listener array; the second component gives the listeners of that copy,
  which the caller below invokes in order. The datum \<open>undefined\<close> of \<open>fire\<close> is the
  unit value.
\<close>

definition mt_cancel :: "'l mutable_token \<Rightarrow> 'l mutable_token \<times> 'l list" where
  "mt_cancel t =
     (if \<not> mt_isCancelled t
      then (t\<lparr>mt_isCancelled := True\<rparr>,
            (case mt_emitter t of None \<Rightarrow> [] | Some e \<Rightarrow> map fst (emitter2_fire () e)))
      else (t, []))"

definition mt_isCancellationRequested :: "'l mutable_token \<Rightarrow> bool" where
  "mt_isCancellationRequested t = mt_isCancelled t"

text \<open>
  The accessor \<open>onCancellationRequested\<close> makes the emitter on first use and returns
  its \<open>event\<close> function; \<open>mt_onCancellationRequested l\<close> is the accessor followed by
  the call of that function on \<open>l\<close>. The Disposable it returns removes \<open>l\<close> from that
  emitter.
\<close>

definition mt_get_emitter :: "'l mutable_token \<Rightarrow> 'l emitter2" where
  "mt_get_emitter t = (case mt_emitter t of None \<Rightarrow> new_emitter2 | Some e \<Rightarrow> e)"

definition mt_onCancellationRequested :: "'l \<Rightarrow> 'l mutable_token \<Rightarrow> 'l mutable_token" where
  "mt_onCancellationRequested l t = t\<lparr>mt_emitter := Some (emitter2_event l (mt_get_emitter t))\<rparr>"

definition mt_listener_dispose :: "'l \<Rightarrow> 'l mutable_token \<Rightarrow> 'l mutable_token" where
  "mt_listener_dispose l t =
     (case mt_emitter t of None \<Rightarrow> t
      | Some e \<Rightarrow> t\<lparr>mt_emitter := Some (emitter2_listener_dispose l e)\<rparr>)"

record 'l cts2 =
  cts2_token_field :: "'l mutable_token option"
  cts2_isCancelled :: bool

definition new_cts2 :: "'l cts2" where
  "new_cts2 = \<lparr>cts2_token_field = None, cts2_isCancelled = False\<rparr>"

text \<open>
  The accessor \<open>token\<close>: the token it returns (made, and cancelled when the source
  already is, on the first read) and the listeners to invoke for it (none: the new
  token has no emitter). The source keeps a reference to the token, so every operation
  on the token is written back to the field of the source.
\<close>

definition cts2_token :: "'l cts2 \<Rightarrow> 'l mutable_token \<times> 'l list" where
  "cts2_token s =
     (case cts2_token_field s of
        None \<Rightarrow> (if cts2_isCancelled s then mt_cancel new_mutable_token
                 else (new_mutable_token, []))
      | Some t \<Rightarrow> (t, []))"

definition cts2_isCancellationRequested :: "'l cts2 \<Rightarrow> 'l cts2 \<times> js_bool" where
  "cts2_isCancellationRequested s =
     (let (t, tr) = cts2_token s
      in (s\<lparr>cts2_token_field := Some t\<rparr>, JBool (mt_isCancellationRequested t)))"

definition cts2_onCancellationRequested :: "'l \<Rightarrow> 'l cts2 \<Rightarrow> 'l cts2 \<times> 'l list" where
  "cts2_onCancellationRequested l s =
     (let (t, tr) = cts2_token s
      in (s\<lparr>cts2_token_field := Some (mt_onCancellationRequested l t)\<rparr>, tr))"

definition cts2_listener_dispose :: "'l \<Rightarrow> 'l cts2 \<Rightarrow> 'l cts2" where
  "cts2_listener_dispose l s =
     (case cts2_token_field s of None \<Rightarrow> s
      | Some t \<Rightarrow> s\<lparr>cts2_token_field := Some (mt_listener_dispose l t)\<rparr>)"

text \<open>
  The actions of a running listener on the second version. A listener runs only from
  the \<open>fire\<close> of \<open>MutableToken.cancel\<close>, after the flag of the token was set, and
  nothing resets it. So \<open>cancel()\<close> and \<open>dispose()\<close> called by a listener set the
  flag of the source and find the token cancelled, and
  \<open>token.onCancellationRequested(l)\<close> called by a listener finds the token made and
  puts \<open>l\<close> on the emitter, where nothing calls it.
\<close>

fun act2 :: "'l action \<Rightarrow> 'l cts2 \<Rightarrow> 'l cts2 \<times> 'l obs list \<times> completion" where
  "act2 (Act_dispose a) s = (cts2_listener_dispose a s, [], Returned)"
| "act2 (Act_register a body) s = (fst (cts2_onCancellationRequested a s), [], Returned)"
| "act2 Act_cancel s = (s\<lparr>cts2_isCancelled := True\<rparr>, [], Returned)"
| "act2 Act_dispose_source s = (s\<lparr>cts2_isCancelled := True\<rparr>, [], Returned)"
| "act2 Act_read_flag s =
     (fst (cts2_isCancellationRequested s), [Flag (snd (cts2_isCancellationRequested s))], Returned)"
| "act2 Act_throw s = (s, [], Threw)"

fun acts2 :: "'l action list \<Rightarrow> 'l cts2 \<Rightarrow> 'l cts2 \<times> 'l obs list \<times> completion" where
  "acts2 [] s = (s, [], Returned)"
| "acts2 (a # as) s =
     (let r = act2 a s
      in if snd (snd r) = Threw then r
         else (let r' = acts2 as (fst r) in (fst r', fst (snd r) @ fst (snd r'), snd (snd r'))))"

text \<open>
  \<open>emit\<close> calls the listeners of its copy in order; an exception of a listener ends
  it, and the listeners after that one are not called.
\<close>

fun calls2 ::
  "('l \<Rightarrow> 'l action list) \<Rightarrow> 'l list \<Rightarrow> 'l cts2 \<Rightarrow> 'l cts2 \<times> 'l obs list \<times> completion" where
  "calls2 beh [] s = (s, [], Returned)"
| "calls2 beh (l # ls) s =
     (let r = acts2 (beh l) s
      in if snd (snd r) = Threw then (fst r, Invoked l # fst (snd r), Threw)
         else (let r' = calls2 beh ls (fst r)
               in (fst r', Invoked l # fst (snd r) @ fst (snd r'), snd (snd r'))))"

definition cts2_cancel ::
  "('l \<Rightarrow> 'l action list) \<Rightarrow> 'l cts2 \<Rightarrow> 'l cts2 \<times> 'l obs list \<times> completion" where
  "cts2_cancel beh s =
     (let s' = s\<lparr>cts2_isCancelled := True\<rparr>
      in case cts2_token_field s' of
           None \<Rightarrow> (s', [], Returned)
         | Some t \<Rightarrow> (let (t', copy) = mt_cancel t
                     in calls2 beh copy (s'\<lparr>cts2_token_field := Some t'\<rparr>)))"

definition cts2_dispose ::
  "('l \<Rightarrow> 'l action list) \<Rightarrow> 'l cts2 \<Rightarrow> 'l cts2 \<times> 'l obs list \<times> completion" where
  "cts2_dispose beh s = cts2_cancel beh s"

text \<open>
  What the second version holds: the listeners on the emitter of its token, and the
  flag that guards the firing (the token's once it exists, the source's before).
\<close>

definition cts2_listeners :: "'l cts2 \<Rightarrow> 'l list" where
  "cts2_listeners s =
     (case cts2_token_field s of None \<Rightarrow> []
      | Some t \<Rightarrow> (case mt_emitter t of None \<Rightarrow> [] | Some e \<Rightarrow> e2_emitter e ''event''))"

definition cts2_fired :: "'l cts2 \<Rightarrow> bool" where
  "cts2_fired s = (case cts2_token_field s of None \<Rightarrow> cts2_isCancelled s | Some t \<Rightarrow> mt_isCancelled t)"

subsection \<open>Sequences of operations and what they show\<close>

text \<open>
  A caller sees the listeners that are invoked, in order, the values that reads of
  \<open>token.isCancellationRequested\<close> give, and the exceptions that reach it (it is
  taken to catch them and go on). \<open>OnCancel l\<close> is \<open>token.onCancellationRequested(l)\<close>,
  \<open>DisposeListener l\<close> the \<open>dispose()\<close> of a Disposable returned for \<open>l\<close>,
  \<open>DisposeSource\<close> the \<open>dispose()\<close> of the source.
\<close>

datatype 'l cts_op = OnCancel 'l | DisposeListener 'l | Cancel | DisposeSource | ReadFlag

definition seen :: "'s \<times> 'l obs list \<times> completion \<Rightarrow> 's \<times> 'l obs list" where
  "seen r = (fst r, fst (snd r) @ (if snd (snd r) = Threw then [Thrown] else []))"

fun exec1 :: "('l \<Rightarrow> 'l action list) \<Rightarrow> 'l cts_op \<Rightarrow> 'l cts1 \<Rightarrow> 'l cts1 \<times> 'l obs list" where
  "exec1 beh (OnCancel l) s = seen (cts1_onCancellationRequested beh l s)"
| "exec1 beh (DisposeListener l) s = (cts1_listener_dispose l s, [])"
| "exec1 beh Cancel s = seen (cts1_cancel beh s)"
| "exec1 beh DisposeSource s = (cts1_dispose s, [])"
| "exec1 beh ReadFlag s = (s, [Flag (cts1_isCancellationRequested s)])"

fun exec2 :: "('l \<Rightarrow> 'l action list) \<Rightarrow> 'l cts_op \<Rightarrow> 'l cts2 \<Rightarrow> 'l cts2 \<times> 'l obs list" where
  "exec2 beh (OnCancel l) s =
     (let (s', copy) = cts2_onCancellationRequested l s in seen (calls2 beh copy s'))"
| "exec2 beh (DisposeListener l) s = (cts2_listener_dispose l s, [])"
| "exec2 beh Cancel s = seen (cts2_cancel beh s)"
| "exec2 beh DisposeSource s = seen (cts2_dispose beh s)"
| "exec2 beh ReadFlag s = (let (s', b) = cts2_isCancellationRequested s in (s', [Flag b]))"

fun run1 :: "('l \<Rightarrow> 'l action list) \<Rightarrow> 'l cts_op list \<Rightarrow> 'l cts1 \<Rightarrow> 'l cts1 \<times> 'l obs list" where
  "run1 beh [] s = (s, [])"
| "run1 beh (a # as) s =
     (let (s', tr) = exec1 beh a s; (s'', tr') = run1 beh as s' in (s'', tr @ tr'))"

fun run2 :: "('l \<Rightarrow> 'l action list) \<Rightarrow> 'l cts_op list \<Rightarrow> 'l cts2 \<Rightarrow> 'l cts2 \<times> 'l obs list" where
  "run2 beh [] s = (s, [])"
| "run2 beh (a # as) s =
     (let (s', tr) = exec2 beh a s; (s'', tr') = run2 beh as s' in (s'', tr @ tr'))"


definition leaves_all :: "'l action list \<Rightarrow> bool" where
  "leaves_all b = list_all (\<lambda>a. a = Act_cancel \<or> a = Act_dispose_source) b"

definition no_throw :: "'l action list \<Rightarrow> bool" where
  "no_throw b = list_all (\<lambda>a. a \<noteq> Act_throw) b"

text \<open>
  An action that \<open>spares1\<close> the listeners \<open>ls\<close> does not throw, disposes no
  registration of a listener of \<open>ls\<close> and registers no listener of \<open>ls\<close>; a
  listener that it registers, which the first version calls at once, must do the same.
\<close>

fun spares1 :: "'l list \<Rightarrow> 'l action \<Rightarrow> bool"
  and spares_all1 :: "'l list \<Rightarrow> 'l action list \<Rightarrow> bool" where
  "spares1 ls (Act_dispose a) = (a \<notin> set ls)"
| "spares1 ls (Act_register a body) = (a \<notin> set ls \<and> spares_all1 ls body)"
| "spares1 ls Act_cancel = True"
| "spares1 ls Act_dispose_source = True"
| "spares1 ls Act_read_flag = True"
| "spares1 ls Act_throw = False"
| "spares_all1 ls [] = True"
| "spares_all1 ls (a # as) = (spares1 ls a \<and> spares_all1 ls as)"








text \<open>
  The sequences on which the two sources are compared. \<open>att\<close> are the listeners
  that the first version holds, \<open>c1\<close> tells whether the first version is cancelled and
  \<open>c2\<close> whether the second has fired (by \<open>cancel()\<close> or by \<open>dispose()\<close>).
  \<^item> A listener is registered only while the first version is not cancelled; as long as
    the second has not fired, the listener must be one that \<open>leaves_all\<close>.
  \<^item> Before the second version has fired, a registration is disposed only when the
    removal of the first instance and the removal of the last one give the same array.
  \<^item> \<open>cancel()\<close> is called while both are untouched, or when the first version holds
    no listener, or when it is cancelled already.
  \<^item> \<open>dispose()\<close> of the source is called when the first version holds no listener,
    or after the second has fired.
  \<^item> The flag is not read.
\<close>

fun agree_ops ::
  "('l \<Rightarrow> 'l action list) \<Rightarrow> 'l list \<Rightarrow> bool \<Rightarrow> bool \<Rightarrow> 'l cts_op list \<Rightarrow> bool" where
  "agree_ops beh att c1 c2 [] = True"
| "agree_ops beh att c1 c2 (OnCancel l # as) =
     (\<not> c1 \<and> (c2 \<or> leaves_all (beh l)) \<and> agree_ops beh (att @ [l]) c1 c2 as)"
| "agree_ops beh att c1 c2 (DisposeListener l # as) =
     ((c2 \<or> remove1 l att = remove_last l att) \<and> agree_ops beh (remove1 l att) c1 c2 as)"
| "agree_ops beh att c1 c2 (Cancel # as) =
     ((\<not> c2 \<or> c1 \<or> att = []) \<and> agree_ops beh [] True True as)"
| "agree_ops beh att c1 c2 (DisposeSource # as) =
     ((c2 \<or> att = []) \<and> agree_ops beh [] c1 True as)"
| "agree_ops beh att c1 c2 (ReadFlag # as) = False"


subsection \<open>Listeners to evaluate on\<close>

definition beh_self_dispose :: "nat \<Rightarrow> nat action list" where
  "beh_self_dispose l = (if l = 1 then [Act_dispose 1] else [])"

definition beh_throw :: "nat \<Rightarrow> nat action list" where
  "beh_throw l = (if l = 1 then [Act_throw] else [])"

definition beh_calls :: "nat \<Rightarrow> nat action list" where
  "beh_calls l =
     (if l = 3
      then [Act_cancel, Act_read_flag, Act_register 5 [Act_dispose 6], Act_dispose_source]
      else [])"


section \<open>spawn.ts: the browser spawner\<close>

subsection \<open>Parameters and the host\<close>

text \<open>
  The browser kind is the string of the request body; the type \<open>ILaunchParams\<close>
  declares \<open>'chrome' | 'edge'\<close> and \<open>findBrowserPath\<close> adds \<open>'firefox'\<close>, but
  nothing checks the body against it. \<open>finders\<close> is an object literal with three keys.
  \<open>type in this.finders\<close> looks a key up along the prototype chain, so it also holds
  for the property names of \<open>Object.prototype\<close>.
\<close>

type_synonym browser_type = string

definition finder_keys :: "browser_type list" where
  "finder_keys = [''edge'', ''chrome'', ''firefox'']"

definition object_prototype_keys :: "string list" where
  "object_prototype_keys =
     [''constructor'', ''__defineGetter__'', ''__defineSetter__'', ''hasOwnProperty'',
      ''__lookupGetter__'', ''__lookupSetter__'', ''isPrototypeOf'', ''propertyIsEnumerable'',
      ''toString'', ''valueOf'', ''__proto__'', ''toLocaleString'']"

definition type_in_finders :: "browser_type \<Rightarrow> bool" where
  "type_in_finders ty = (ty \<in> set finder_keys \<or> ty \<in> set object_prototype_keys)"

text \<open>An installation as a finder of js-debug-browsers reports it.\<close>

record executable =
  exe_path :: string
  exe_quality :: string

text \<open>
  The three UserErrors of \<open>findBrowserPath\<close>, each with the values its message is
  built from, and what \<open>findBrowserPath\<close> can throw: a UserError, or the TypeError of
  the call \<open>this.finders[type].findAll()\<close> when \<open>this.finders[type]\<close> is an
  inherited property, which has no \<open>findAll\<close>.
\<close>

datatype user_error =
    Type_not_supported browser_type
  | No_installation browser_type
  | Version_not_found browser_type string "executable list"

datatype thrown = UserError user_error | TypeError_findAll browser_type

datatype env_value = Env_undefined | Env_null | Env_string string

text \<open>
  What the spawner reads from outside the repository: \<open>findAll\<close> of each finder and
  \<open>isQuality\<close> (js-debug-browsers), \<open>exists\<close> (fs), \<open>join\<close> (path),
  \<open>process.cwd()\<close>, \<open>process.platform === 'win32'\<close>, \<open>process.env\<close> and the
  conversion \<open>Number\<close>.
\<close>

record 'n host =
  h_finders :: "browser_type \<Rightarrow> executable list"
  h_isQuality :: "string \<Rightarrow> bool"
  h_exists :: "string \<Rightarrow> bool"
  h_join :: "string \<Rightarrow> string \<Rightarrow> string"
  h_cwd :: string
  h_win32 :: bool
  h_env :: "string \<rightharpoonup> env_value"
  h_Number :: "string \<Rightarrow> 'n"

record wsl_info =
  wsl_execPath :: string
  wsl_distro :: string
  wsl_user :: string

datatype user_data_dir = UDD_bool bool | UDD_string string

record chromium_params =
  cp_env :: "string \<rightharpoonup> env_value"
  cp_runtimeExecutable :: string
  cp_userDataDir :: user_data_dir
  cp_cwd :: "string option"
  cp_webRoot :: "string option"

record launch_params =
  lp_type :: browser_type
  lp_path :: string
  lp_proxyUri :: string
  lp_launchId :: int
  lp_browserArgs :: "string list"
  lp_wslInfo :: "wsl_info option"
  lp_attach :: "(string \<times> int) option"
  lp_params :: chromium_params

definition debugPortPrefix :: string where
  "debugPortPrefix = ''--remote-debugging-port=''"

definition debugPipeArg :: string where
  "debugPipeArg = ''--remote-debugging-port=''"

definition startsWith :: "string \<Rightarrow> string \<Rightarrow> bool" where
  "startsWith a p = (take (length p) a = p)"

subsection \<open>findBrowserPath and getUserDataDir\<close>

definition findBrowserPath :: "'n host \<Rightarrow> browser_type \<Rightarrow> string \<Rightarrow> thrown + string" where
  "findBrowserPath h ty runtimeExecutable =
     (if runtimeExecutable \<noteq> ''*'' \<and> \<not> h_isQuality h runtimeExecutable then Inr runtimeExecutable
      else if \<not> type_in_finders ty then Inl (UserError (Type_not_supported ty))
      else if ty \<notin> set finder_keys then Inl (TypeError_findAll ty)
      else
        let available = h_finders h ty;
            resolved =
              (if runtimeExecutable = ''*''
               then (case find (\<lambda>r. exe_quality r = ''stable'') available of
                       Some r \<Rightarrow> Some r
                     | None \<Rightarrow> (case available of [] \<Rightarrow> None | r # _ \<Rightarrow> Some r))
               else find (\<lambda>r. exe_quality r = runtimeExecutable) available)
        in case resolved of
             None \<Rightarrow>
               (if runtimeExecutable = ''stable'' \<and> available = []
                then Inl (UserError (No_installation ty))
                else Inl (UserError (Version_not_found ty runtimeExecutable available)))
           | Some r \<Rightarrow> Inr (exe_path r))"

definition getUserDataDir :: "'n host \<Rightarrow> string \<Rightarrow> launch_params \<Rightarrow> string option" where
  "getUserDataDir h storagePath p =
     (let requested = cp_userDataDir (lp_params p)
      in if requested = UDD_bool False then None
         else
           let defaultDir = h_join h storagePath
                 (if ''--headless'' \<in> set (lp_browserArgs p) then ''.headless-profile''
                  else ''.profile'')
           in case requested of
                UDD_bool _ \<Rightarrow> Some defaultDir
              | UDD_string dir \<Rightarrow> if \<not> h_exists h dir then Some defaultDir else Some dir)"

subsection \<open>launch\<close>

text \<open>
  A call of \<open>spawn\<close> with its options; the child process is identified with the call
  that made it. \<open>launch\<close> ends in \<open>new PipedTarget(child)\<close> or in
  \<open>ServerTarget.create(child, Number(port))\<close>.
\<close>

datatype stdio_slot = Ignore | Pipe

datatype stdio = Stdio_ignore | Stdio_slots "stdio_slot list"

record spawn_call =
  sp_binary :: string
  sp_args :: "string list"
  sp_detached :: bool
  sp_env :: "string \<rightharpoonup> env_value"
  sp_stdio :: stdio
  sp_cwd :: string

datatype 'n target = PipedTarget spawn_call | ServerTarget_create spawn_call 'n

fun target_child :: "'n target \<Rightarrow> spawn_call" where
  "target_child (PipedTarget c) = c"
| "target_child (ServerTarget_create c n) = c"

fun is_piped :: "'n target \<Rightarrow> bool" where
  "is_piped (PipedTarget c) = True"
| "is_piped (ServerTarget_create c n) = False"

fun target_port :: "'n target \<Rightarrow> 'n option" where
  "target_port (PipedTarget c) = None"
| "target_port (ServerTarget_create c n) = Some n"

text \<open>Truthiness of a \<open>string | null\<close> value, and \<open>a || b\<close> on such values.\<close>

definition truthy :: "string option \<Rightarrow> bool" where
  "truthy v = (case v of None \<Rightarrow> False | Some s \<Rightarrow> s \<noteq> [])"

definition js_or :: "string option \<Rightarrow> string option \<Rightarrow> string option" where
  "js_or a b = (if truthy a then a else b)"

definition launch_cwd :: "'n host \<Rightarrow> launch_params \<Rightarrow> string" where
  "launch_cwd h p =
     (case js_or (cp_cwd (lp_params p)) (cp_webRoot (lp_params p)) of
        None \<Rightarrow> h_cwd h
      | Some d \<Rightarrow> if d = [] \<or> \<not> h_exists h d then h_cwd h else d)"

definition spawn_piped ::
  "'n host \<Rightarrow> launch_params \<Rightarrow> string \<Rightarrow> string list \<Rightarrow> string \<Rightarrow> spawn_call" where
  "spawn_piped h p binary args cwd =
     \<lparr>sp_binary = binary, sp_args = args, sp_detached = (\<not> h_win32 h),
      sp_env = h_env h
        ++ [''GDK_PIXBUF_MODULEDIR'' \<mapsto> Env_undefined,
            ''GDK_PIXBUF_MODULE_FILE'' \<mapsto> Env_undefined,
            ''ELECTRON_RUN_AS_NODE'' \<mapsto> Env_undefined]
        ++ cp_env (lp_params p),
      sp_stdio = Stdio_slots [Ignore, Ignore, Ignore, Pipe, Pipe],
      sp_cwd = cwd\<rparr>"

definition spawn_server ::
  "'n host \<Rightarrow> launch_params \<Rightarrow> string \<Rightarrow> string list \<Rightarrow> string \<Rightarrow> spawn_call" where
  "spawn_server h p binary args cwd =
     \<lparr>sp_binary = binary, sp_args = args, sp_detached = (\<not> h_win32 h),
      sp_env = [''ELECTRON_RUN_AS_NODE'' \<mapsto> Env_undefined] ++ cp_env (lp_params p),
      sp_stdio = Stdio_ignore,
      sp_cwd = cwd\<rparr>"

text \<open>\<open>args\<close> after the optional \<open>unshift\<close> of the user data directory.\<close>

definition launch_args :: "'n host \<Rightarrow> string \<Rightarrow> launch_params \<Rightarrow> string list" where
  "launch_args h storagePath p =
     (case getUserDataDir h storagePath p of
        None \<Rightarrow> lp_browserArgs p
      | Some userDataDir \<Rightarrow> (''--user-data-dir='' @ userDataDir) # lp_browserArgs p)"

definition launch :: "'n host \<Rightarrow> string \<Rightarrow> launch_params \<Rightarrow> thrown + 'n target" where
  "launch h storagePath p =
     (case findBrowserPath h (lp_type p) (cp_runtimeExecutable (lp_params p)) of
        Inl e \<Rightarrow> Inl e
      | Inr binary \<Rightarrow>
          let args = launch_args h storagePath p;
              cwd = launch_cwd h p;
              port = map_option (drop (length debugPortPrefix))
                       (find (\<lambda>a. startsWith a debugPortPrefix) args)
          in if \<not> truthy port
             then Inr (PipedTarget (spawn_piped h p binary args cwd))
             else
               let args' = (if debugPipeArg \<notin> set args then debugPipeArg # args else args)
               in Inr (ServerTarget_create (spawn_server h p binary args' cwd)
                        (h_Number h (case port of None \<Rightarrow> [] | Some text \<Rightarrow> text))))"

subsection \<open>A host and launch parameters to evaluate on\<close>

definition quality_names :: "string list" where
  "quality_names = [''canary'', ''stable'', ''beta'', ''dev'', ''custom'']"

definition host0 :: "string host" where
  "host0 = \<lparr>h_finders = (\<lambda>ty. if ty = ''chrome''
                 then [\<lparr>exe_path = ''/opt/chrome-beta/chrome'', exe_quality = ''beta''\<rparr>,
                       \<lparr>exe_path = ''/opt/chrome/chrome'', exe_quality = ''stable''\<rparr>]
                 else []),
            h_isQuality = (\<lambda>s. s \<in> set quality_names),
            h_exists = (\<lambda>d. d = ''/home/u/profile''),
            h_join = (\<lambda>a b. a @ ''/'' @ b),
            h_cwd = ''/srv'',
            h_win32 = False,
            h_env = Map.empty,
            h_Number = (\<lambda>s. s)\<rparr>"

definition params0 :: "launch_params" where
  "params0 = \<lparr>lp_type = ''chrome'', lp_path = [], lp_proxyUri = ''127.0.0.1:9000'', lp_launchId = 7,
      lp_browserArgs = [''--remote-debugging-port=9222'', ''about:blank''],
      lp_wslInfo = Some \<lparr>wsl_execPath = ''/usr/bin/node'', wsl_distro = ''Ubuntu'', wsl_user = ''u''\<rparr>,
      lp_attach = None,
      lp_params = \<lparr>cp_env = Map.empty, cp_runtimeExecutable = ''*'', cp_userDataDir = UDD_bool True,
                    cp_cwd = None, cp_webRoot = None\<rparr>\<rparr>"

definition params_empty_port :: launch_params where
  "params_empty_port = params0\<lparr>lp_browserArgs := [''--remote-debugging-port='', ''about:blank'']\<rparr>"


definition params_headless :: launch_params where
  "params_headless = params0\<lparr>lp_browserArgs := [''--headless'', ''about:blank''],
     lp_params := (lp_params params0)\<lparr>cp_userDataDir := UDD_string ''/nowhere''\<rparr>\<rparr>"

definition stop0 :: "string target \<Rightarrow> string option" where
  "stop0 t = (if is_piped t then None else Some ''kill failed'')"

section \<open>The session registry\<close>

text \<open>
  sessionManager.ts and target.ts are not among the sources: cli.ts only constructs a
  \<open>SessionManager\<close> and calls \<open>create\<close>, \<open>destroy\<close> and \<open>dispose\<close> on it. The
  registry is therefore written from the specification (section 4.5).
\<close>

text \<open>
  Modelled from the spec: the state of \<open>SessionManager\<close> (sessionManager.ts is
  missing). The entries map identifiers to Targets; the other fields record the
  processes spawned, the Targets stopped and the termination failures logged.
\<close>

record 'n registry =
  reg_entries :: "(int \<times> 'n target) list"
  reg_spawned :: "spawn_call list"
  reg_stopped :: "'n target list"
  reg_log :: "string list"

definition new_registry :: "'n registry" where
  "new_registry = \<lparr>reg_entries = [], reg_spawned = [], reg_stopped = [], reg_log = []\<rparr>"

datatype create_error = Already_registered int | Launch_failed thrown

definition registered :: "'n registry \<Rightarrow> int \<Rightarrow> 'n target list" where
  "registered r i = map snd (filter (\<lambda>e. fst e = i) (reg_entries r))"

text \<open>
  Modelled from the spec: \<open>SessionManager.create\<close> (sessionManager.ts is missing).
  It rejects an identifier that has a live Target, otherwise delegates to the spawner and
  registers the Target; a spawn failure registers nothing and is surfaced.
\<close>

definition create ::
  "(launch_params \<Rightarrow> thrown + 'n target) \<Rightarrow> int \<Rightarrow> launch_params \<Rightarrow> 'n registry
     \<Rightarrow> (create_error + unit) \<times> 'n registry" where
  "create spawner i p r =
     (if registered r i \<noteq> [] then (Inl (Already_registered i), r)
      else case spawner p of
             Inl e \<Rightarrow> (Inl (Launch_failed e), r)
           | Inr t \<Rightarrow> (Inr (), r\<lparr>reg_entries := reg_entries r @ [(i, t)],
                                  reg_spawned := reg_spawned r @ [target_child t]\<rparr>))"

text \<open>
  Modelled from the spec: \<open>SessionManager.destroy\<close> and \<open>Target.stop\<close>
  (sessionManager.ts and target.ts are missing). \<open>stop\<close> gives the message of a
  termination failure, if any; it is logged and not surfaced.
\<close>

definition destroy :: "('n target \<Rightarrow> string option) \<Rightarrow> int \<Rightarrow> 'n registry \<Rightarrow> 'n registry" where
  "destroy stop i r =
     (if registered r i = [] then r
      else r\<lparr>reg_entries := filter (\<lambda>e. fst e \<noteq> i) (reg_entries r),
             reg_stopped := reg_stopped r @ registered r i,
             reg_log := reg_log r @ List.map_filter stop (registered r i)\<rparr>)"

text \<open>Modelled from the spec: \<open>disposeAll\<close> (sessionManager.ts is missing).\<close>

definition disposeAll :: "('n target \<Rightarrow> string option) \<Rightarrow> 'n registry \<Rightarrow> 'n registry" where
  "disposeAll stop r = fold (destroy stop) (remdups (map fst (reg_entries r))) r"

datatype registry_op = Create int launch_params | Destroy int

fun registry_exec ::
  "(launch_params \<Rightarrow> thrown + 'n target) \<Rightarrow> ('n target \<Rightarrow> string option)
     \<Rightarrow> registry_op \<Rightarrow> 'n registry \<Rightarrow> 'n registry" where
  "registry_exec spawner stop (Create i p) r = snd (create spawner i p r)"
| "registry_exec spawner stop (Destroy i) r = destroy stop i r"

definition registry_run ::
  "(launch_params \<Rightarrow> thrown + 'n target) \<Rightarrow> ('n target \<Rightarrow> string option)
     \<Rightarrow> registry_op list \<Rightarrow> 'n registry \<Rightarrow> 'n registry" where
  "registry_run spawner stop ops r = fold (registry_exec spawner stop) ops r"

text \<open>
  cli.ts, the handler of POST /kill: \<open>JSON.parse\<close> or the destructuring of its
  result may throw (answer 500 with the message); otherwise \<open>destroy\<close> is called with
  the \<open>launchId\<close> of the body, which is \<open>undefined\<close> when the body has none, and the
  answer is 200.
\<close>

datatype kill_body = Body_unparsable string | Body_launchId "int option"

datatype http_body = Json_success | Json_error string | Text string

datatype http_response = Http nat http_body

definition kill_request ::
  "('n target \<Rightarrow> string option) \<Rightarrow> kill_body \<Rightarrow> 'n registry \<Rightarrow> http_response \<times> 'n registry" where
  "kill_request stop body r =
     (case body of
        Body_unparsable message \<Rightarrow> (Http 500 (Json_error message), r)
      | Body_launchId None \<Rightarrow> (Http 200 Json_success, r)
      | Body_launchId (Some launchId) \<Rightarrow> (Http 200 Json_success, destroy stop launchId r))"

section \<open>Cancellation: what the two versions do\<close>

lemmas cts1_defs = new_cts1_def cts1_isCancellationRequested_def token1_keys_def
  cts1_onCancellationRequested_def cts1_listener_dispose_def cts1_cancel_def cts1_dispose_def
  seen_def iterated_def

lemmas node_defs = node_new_def node_on_def node_removeListener_def
  node_removeAllListeners_def node_emit_def remove_last_def

lemmas cts2_defs = new_cts2_def cts2_token_def cts2_isCancellationRequested_def
  cts2_onCancellationRequested_def cts2_listener_dispose_def cts2_cancel_def cts2_dispose_def
  new_mutable_token_def mt_cancel_def mt_isCancellationRequested_def mt_get_emitter_def
  mt_onCancellationRequested_def mt_listener_dispose_def
  new_emitter2_def emitter2_event_def emitter2_listener_dispose_def emitter2_fire_def seen_def

lemma loop1_end: "length (iterated h) \<le> i \<Longrightarrow> loop1 beh i h = (h, [], Returned)"
  by (simp add: loop1.simps)

lemma acts1_cancelled:
  "cts1_cancelled (fst (fst (act1 a h))) = cts1_cancelled (fst h)"
  "cts1_cancelled (fst (fst (acts1 as h))) = cts1_cancelled (fst h)"
  by (induction a h and as h rule: act1_acts1.induct)
     (simp_all add: Let_def cts1_listener_dispose_def cts1_dispose_def)

lemma loop1_cancelled: "cts1_cancelled (fst (fst (loop1 beh i h))) = cts1_cancelled (fst h)"
proof (induction beh i h rule: loop1.induct)
  case (1 beh i h)
  show ?case
  proof (cases "i < length (iterated h)")
    case False
    then show ?thesis by (simp add: loop1_end)
  next
    case True
    show ?thesis
    proof (cases "snd (snd (acts1 (beh (iterated h ! i)) h)) = Threw")
      case Threw: True
      with True show ?thesis
        by (subst loop1.simps) (simp add: Let_def acts1_cancelled)
    next
      case False
      from "1.IH" [OF True refl False]
      have "cts1_cancelled (fst (fst (loop1 beh (Suc i) (fst (acts1 (beh (iterated h ! i)) h)))))
          = cts1_cancelled (fst h)"
        by (simp add: acts1_cancelled)
      with True False show ?thesis
        by (subst loop1.simps) (simp add: Let_def)
    qed
  qed
qed

lemma cts1_cancel_cancelled: "cts1_cancelled (fst (cts1_cancel beh s))"
  by (simp add: cts1_cancel_def Let_def loop1_cancelled)

lemma cts1_cancel_again: "cts1_cancelled s \<Longrightarrow> cts1_cancel beh s = (s, [], Returned)"
  by (simp add: cts1_cancel_def)

lemma cts1_cancelled_exec: "cts1_cancelled s \<Longrightarrow> cts1_cancelled (fst (exec1 beh a s))"
  by (cases a)
     (simp_all add: seen_def cts1_onCancellationRequested_def Let_def acts1_cancelled
        cts1_cancel_again cts1_listener_dispose_def cts1_dispose_def)

lemma cts1_cancelled_run: "cts1_cancelled s \<Longrightarrow> cts1_cancelled (fst (run1 beh as s))"
proof (induction as arbitrary: s)
  case Nil
  then show ?case by simp
next
  case (Cons a as)
  from Cons.prems have "cts1_cancelled (fst (exec1 beh a s))" by (rule cts1_cancelled_exec)
  then have "cts1_cancelled (fst (run1 beh as (fst (exec1 beh a s))))" by (rule Cons.IH)
  then show ?case by (simp add: split_beta)
qed

lemma invoked_append: "invoked (xs @ ys) = invoked xs @ invoked ys"
  by (induction xs rule: invoked.induct) simp_all





text \<open>
  Listeners that spare the attached ones: the array that the loop walks stays as it is,
  and among the listeners invoked meanwhile none is an attached one.
\<close>

lemma acts1_spares:
  "spares1 ls a \<Longrightarrow> iterated h = ls \<Longrightarrow>
   snd (snd (act1 a h)) = Returned
     \<and> filter (\<lambda>l. l \<in> set ls) (invoked (fst (snd (act1 a h)))) = []
     \<and> iterated (fst (act1 a h)) = ls"
  "spares_all1 ls as \<Longrightarrow> iterated h = ls \<Longrightarrow>
   snd (snd (acts1 as h)) = Returned
     \<and> filter (\<lambda>l. l \<in> set ls) (invoked (fst (snd (acts1 as h)))) = []
     \<and> iterated (fst (acts1 as h)) = ls"
proof (induction a h and as h rule: act1_acts1.induct)
  case (1 a h)
  then show ?case
    by (cases h) (auto simp: iterated_def cts1_listener_dispose_def remove1_idem
        split: iteration.splits)
next
  case (2 a body h)
  then show ?case by (simp add: Let_def)
next
  case (3 h)
  then show ?case by simp
next
  case (4 h)
  then show ?case
    by (cases h) (auto simp: iterated_def cts1_dispose_def split: iteration.splits)
next
  case (5 h)
  then show ?case by simp
next
  case (6 h)
  then show ?case by simp
next
  case (7 h)
  then show ?case by simp
next
  case (8 a as h)
  from "8.prems" have a: "spares1 ls a" and as: "spares_all1 ls as"
    by simp_all
  note step = "8.IH"(1) [OF a "8.prems"(2)]
  then have ok: "snd (snd (act1 a h)) \<noteq> Threw" by simp
  from step have it: "iterated (fst (act1 a h)) = ls" by simp
  note rest = "8.IH"(2) [OF refl ok as it]
  from step rest show ?case
    by (simp add: Let_def invoked_append)
qed

lemma loop1_spares:
  "list_all (\<lambda>l. spares_all1 (iterated h) (beh l)) (iterated h) \<Longrightarrow>
   snd (snd (loop1 beh i h)) = Returned
     \<and> filter (\<lambda>l. l \<in> set (iterated h)) (invoked (fst (snd (loop1 beh i h))))
         = drop i (iterated h)"
proof (induction beh i h rule: loop1.induct)
  case (1 beh i h)
  show ?case
  proof (cases "i < length (iterated h)")
    case False
    then show ?thesis by (simp add: loop1_end)
  next
    case True
    let ?l = "iterated h ! i"
    let ?r = "acts1 (beh ?l) h"
    from "1.prems" True have "spares_all1 (iterated h) (beh ?l)"
      by (simp add: list_all_length)
    note l = acts1_spares(2) [OF this refl]
    then have ok: "snd (snd ?r) \<noteq> Threw" by simp
    from l have same: "iterated (fst ?r) = iterated h" by simp
    with "1.prems"
    have "list_all (\<lambda>l. spares_all1 (iterated (fst ?r)) (beh l)) (iterated (fst ?r))"
      by simp
    note rest = "1.IH" [OF True refl ok this]
    from True have "drop i (iterated h) = ?l # drop (Suc i) (iterated h)"
      by (simp add: Cons_nth_drop_Suc)
    moreover from True have "?l \<in> set (iterated h)" by simp
    ultimately show ?thesis
      using True ok l rest same
      by (subst (1 2) loop1.simps) (simp add: Let_def invoked_append)
  qed
qed

lemma cts1_cancel_spares:
  assumes "\<not> cts1_cancelled s"
    "list_all (\<lambda>l. spares_all1 (cts1_listeners s) (beh l)) (cts1_listeners s)"
  shows "filter (\<lambda>l. l \<in> set (cts1_listeners s)) (invoked (fst (snd (cts1_cancel beh s))))
       = cts1_listeners s
     \<and> snd (snd (cts1_cancel beh s)) = Returned
     \<and> fst (cts1_cancel beh s) = \<lparr>cts1_cancelled = True, cts1_listeners = []\<rparr>"
proof -
  let ?h = "(s\<lparr>cts1_cancelled := True\<rparr>, Live)"
  have it: "iterated ?h = cts1_listeners s"
    by (simp add: iterated_def)
  with assms(2) have "list_all (\<lambda>l. spares_all1 (iterated ?h) (beh l)) (iterated ?h)"
    by simp
  note l = loop1_spares [OF this, of 0]
  have c: "cts1_cancelled (fst (fst (loop1 beh 0 ?h)))"
    by (simp add: loop1_cancelled)
  have "t\<lparr>cts1_listeners := []\<rparr> = \<lparr>cts1_cancelled = True, cts1_listeners = []\<rparr>"
    if "cts1_cancelled t" for t :: "'a cts1"
    using that by (cases t) simp
  from this [OF c] l assms(1) it show ?thesis
    by (simp add: cts1_cancel_def Let_def)
qed

text \<open>The second version: once fired, it stays fired, and nothing is invoked any more.\<close>

lemma cts2_fired_on: "cts2_fired (fst (cts2_onCancellationRequested l s)) = cts2_fired s"
  by (auto simp add: cts2_fired_def cts2_defs Let_def split: option.splits prod.splits)

lemma cts2_fired_off: "cts2_fired (cts2_listener_dispose l s) = cts2_fired s"
  by (auto simp add: cts2_fired_def cts2_defs Let_def split: option.splits prod.splits)

lemma cts2_fired_read: "cts2_fired (fst (cts2_isCancellationRequested s)) = cts2_fired s"
  by (auto simp add: cts2_fired_def cts2_defs Let_def split: option.splits prod.splits)

lemma cts2_fired_flag: "cts2_fired s \<Longrightarrow> cts2_fired (s\<lparr>cts2_isCancelled := True\<rparr>)"
  by (simp add: cts2_fired_def split: option.splits)

lemma cts2_fired_act: "cts2_fired s \<Longrightarrow> cts2_fired (fst (act2 a s))"
  by (cases a) (simp_all add: cts2_fired_on cts2_fired_off cts2_fired_read cts2_fired_flag)

lemma cts2_fired_acts: "cts2_fired s \<Longrightarrow> cts2_fired (fst (acts2 as s))"
  by (induction as arbitrary: s) (simp_all add: Let_def cts2_fired_act)

lemma cts2_fired_calls: "cts2_fired s \<Longrightarrow> cts2_fired (fst (calls2 beh ls s))"
  by (induction ls arbitrary: s) (simp_all add: Let_def cts2_fired_acts)

lemma cts2_on_copy: "snd (cts2_onCancellationRequested l s) = []"
  by (auto simp add: cts2_defs Let_def split: option.splits prod.splits)

lemma cts2_cancel_fired: "cts2_fired (fst (cts2_cancel beh s))"
proof (cases "cts2_token_field s")
  case None
  then show ?thesis by (simp add: cts2_cancel_def cts2_fired_def)
next
  case (Some t)
  have "cts2_fired (s\<lparr>cts2_isCancelled := True, cts2_token_field := Some (fst (mt_cancel t))\<rparr>)"
    by (simp add: cts2_fired_def mt_cancel_def)
  with Some show ?thesis
    by (simp add: cts2_cancel_def split_beta cts2_fired_calls)
qed

lemma cts2_cancel_again: "cts2_fired s \<Longrightarrow> snd (cts2_cancel beh s) = ([], Returned)"
  by (auto simp add: cts2_fired_def cts2_cancel_def mt_cancel_def split: option.splits)

lemma cts2_fired_exec: "cts2_fired s \<Longrightarrow> cts2_fired (fst (exec2 beh a s))"
proof (cases a)
  case (OnCancel l)
  assume "cts2_fired s"
  then have "cts2_fired (fst (cts2_onCancellationRequested l s))"
    by (simp add: cts2_fired_on)
  with OnCancel show ?thesis
    by (simp add: split_beta seen_def cts2_fired_calls)
qed (simp_all add: seen_def cts2_dispose_def cts2_cancel_fired cts2_fired_off cts2_fired_read
      split_beta)

lemma cts2_fired_run: "cts2_fired s \<Longrightarrow> cts2_fired (fst (run2 beh as s))"
proof (induction as arbitrary: s)
  case Nil
  then show ?case by simp
next
  case (Cons a as)
  from Cons.prems have "cts2_fired (fst (exec2 beh a s))" by (rule cts2_fired_exec)
  then have "cts2_fired (fst (run2 beh as (fst (exec2 beh a s))))" by (rule Cons.IH)
  then show ?case by (simp add: split_beta)
qed

subsection \<open>The flag\<close>

text \<open>
  Second version: a read of the flag gives \<open>false\<close> on a fresh source and \<open>true\<close>
  once the source was cancelled, whether the token was made before or after.
\<close>

lemma cts2_flag_fired: "snd (cts2_isCancellationRequested s) = JBool (cts2_fired s)"
  by (simp add: cts2_isCancellationRequested_def cts2_token_def cts2_fired_def mt_cancel_def
      new_mutable_token_def mt_isCancellationRequested_def split: option.splits)

lemma cts2_flag_after_cancel:
  "snd (cts2_isCancellationRequested (fst (cts2_cancel beh s))) = JBool True"
  by (simp add: cts2_flag_fired cts2_cancel_fired)

lemma cts2_flag_new: "snd (cts2_isCancellationRequested new_cts2) = JBool False"
  by (simp add: cts2_defs)

text \<open>
  C8, at the failing input of the first version. On a source that was cancelled, and on
  a fresh one as well, the read of \<open>token.isCancellationRequested\<close> gives
  \<open>undefined\<close>: neither \<open>true\<close> after \<open>cancel()\<close> nor \<open>false\<close> before it, although
  the field \<open>_cancelled\<close> of the source holds the right value.
\<close>

theorem cts1_flag_undefined:
  "cts1_isCancellationRequested (fst (cts1_cancel beh (new_cts1 :: nat cts1))) = JUndefined
   \<and> cts1_cancelled (fst (cts1_cancel beh (new_cts1 :: nat cts1))) = True
   \<and> cts1_isCancellationRequested (new_cts1 :: nat cts1) = JUndefined"
  by (simp add: cts1_defs loop1.simps)

subsection \<open>Listeners attached after cancellation\<close>

text \<open>
  First version: on a cancelled source a new listener is invoked at once and is not
  queued.
\<close>

lemma cts1_listener_after_cancel:
  "cts1_cancelled s \<Longrightarrow>
   hd (fst (snd (cts1_onCancellationRequested beh l s))) = Invoked l
   \<and> (beh l = [] \<longrightarrow> cts1_onCancellationRequested beh l s = (s, [Invoked l], Returned))"
  by (simp add: cts1_onCancellationRequested_def Let_def)

text \<open>
  C7, at the failing input of the second version. After \<open>cancel()\<close>,
  \<open>token.onCancellationRequested(l)\<close> invokes nothing: the listener 7 is queued on the
  emitter of the token, and later calls of \<open>cancel()\<close> and \<open>dispose()\<close> do not invoke
  it either, whatever the listener would do.
\<close>

theorem cts2_listener_after_cancel_queued:
  "snd (run2 beh [Cancel, OnCancel (7::nat), Cancel, DisposeSource] new_cts2) = []
   \<and> cts2_token_field (fst (run2 beh [Cancel, OnCancel (7::nat)] new_cts2))
       = Some \<lparr>mt_isCancelled = True,
               mt_emitter = Some \<lparr>e2_emitter = node_on ''event'' 7 node_new\<rparr>\<rparr>"
  by (simp add: cts2_defs)

subsection \<open>The signal fires once\<close>

text \<open>Listeners that do not throw are all called by \<open>emit\<close>.\<close>

lemma acts2_no_throw:
  "no_throw b \<Longrightarrow> snd (snd (acts2 b s)) = Returned \<and> invoked (fst (snd (acts2 b s))) = []"
proof (induction b arbitrary: s)
  case Nil
  then show ?case by simp
next
  case (Cons a b)
  from Cons.prems have a: "a \<noteq> Act_throw" and b: "no_throw b"
    by (simp_all add: no_throw_def)
  from a have step: "snd (snd (act2 a s)) = Returned \<and> invoked (fst (snd (act2 a s))) = []"
    by (cases a) simp_all
  from step Cons.IH [OF b, of "fst (act2 a s)"] show ?case
    by (simp add: Let_def invoked_append)
qed

lemma calls2_no_throw:
  "list_all (\<lambda>l. no_throw (beh l)) ls \<Longrightarrow>
   snd (snd (calls2 beh ls s)) = Returned \<and> invoked (fst (snd (calls2 beh ls s))) = ls"
proof (induction ls arbitrary: s)
  case Nil
  then show ?case by simp
next
  case (Cons l ls)
  from Cons.prems have l: "no_throw (beh l)" and ls: "list_all (\<lambda>l. no_throw (beh l)) ls"
    by simp_all
  from acts2_no_throw [OF l, of s] Cons.IH [OF ls, of "fst (acts2 (beh l) s)"] show ?case
    by (simp add: Let_def invoked_append)
qed

lemma cts2_cancel_no_throw:
  assumes "\<not> cts2_fired s" "list_all (\<lambda>l. no_throw (beh l)) (cts2_listeners s)"
  shows "invoked (fst (snd (cts2_cancel beh s))) = cts2_listeners s
     \<and> snd (snd (cts2_cancel beh s)) = Returned"
proof (cases "cts2_token_field s")
  case None
  then show ?thesis by (simp add: cts2_cancel_def cts2_listeners_def)
next
  case (Some t)
  with assms(1) have "snd (mt_cancel t) = cts2_listeners s"
    by (simp add: cts2_fired_def cts2_listeners_def mt_cancel_def emitter2_fire_def node_emit_def
        comp_def split: option.splits)
  with Some assms(2) show ?thesis
    by (simp add: cts2_cancel_def split_beta calls2_no_throw)
qed

text \<open>Listeners that do nothing leave the second version as \<open>cancel()\<close> made it.\<close>

lemma calls2_inert:
  "list_all (\<lambda>l. beh l = []) ls \<Longrightarrow> calls2 beh ls s = (s, map Invoked ls, Returned)"
  by (induction ls arbitrary: s) (simp_all add: Let_def)

lemma cts2_cancel_keeps:
  assumes "list_all (\<lambda>l. beh l = []) (cts2_listeners s)"
  shows "cts2_listeners (fst (cts2_cancel beh s)) = cts2_listeners s"
proof (cases "cts2_token_field s")
  case None
  then show ?thesis by (simp add: cts2_cancel_def cts2_listeners_def)
next
  case (Some t)
  have "snd (mt_cancel t) = [] \<or> snd (mt_cancel t) = cts2_listeners s"
    using Some
    by (simp add: cts2_listeners_def mt_cancel_def emitter2_fire_def node_emit_def
        comp_def split: option.splits)
  with assms have "list_all (\<lambda>l. beh l = []) (snd (mt_cancel t))"
    by auto
  from calls2_inert [OF this] Some show ?thesis
    by (simp add: cts2_cancel_def split_beta cts2_listeners_def mt_cancel_def)
qed

lemma cts2_listeners_on:
  "cts2_listeners (fst (cts2_onCancellationRequested l s)) = cts2_listeners s @ [l]"
  by (auto simp add: cts2_listeners_def cts2_defs node_defs Let_def split: option.splits prod.splits)


text \<open>Registrations on a fresh source, followed by one or more calls of \<open>cancel()\<close>.\<close>

lemma run1_append:
  "run1 beh (as @ bs) s
     = (let (s', tr) = run1 beh as s; (s'', tr') = run1 beh bs s' in (s'', tr @ tr'))"
  by (induction as arbitrary: s) (simp_all add: split_beta)

lemma run2_append:
  "run2 beh (as @ bs) s
     = (let (s', tr) = run2 beh as s; (s'', tr') = run2 beh bs s' in (s'', tr @ tr'))"
  by (induction as arbitrary: s) (simp_all add: split_beta)

lemma run1_register:
  "\<not> cts1_cancelled s \<Longrightarrow>
   run1 beh (map OnCancel ls) s = (s\<lparr>cts1_listeners := cts1_listeners s @ ls\<rparr>, [])"
  by (induction ls arbitrary: s) (simp_all add: cts1_onCancellationRequested_def seen_def)

lemma run2_register:
  "snd (run2 beh (map OnCancel ls) s) = []
   \<and> cts2_listeners (fst (run2 beh (map OnCancel ls) s)) = cts2_listeners s @ ls
   \<and> cts2_fired (fst (run2 beh (map OnCancel ls) s)) = cts2_fired s"
  by (induction ls arbitrary: s)
     (simp_all add: split_beta cts2_on_copy cts2_listeners_on cts2_fired_on seen_def)

lemma run1_cancels_again: "cts1_cancelled s \<Longrightarrow> snd (run1 beh (replicate n Cancel) s) = []"
  by (induction n arbitrary: s) (simp_all add: split_beta cts1_cancel_again seen_def)

lemma run2_cancels_again: "cts2_fired s \<Longrightarrow> snd (run2 beh (replicate n Cancel) s) = []"
  by (induction n arbitrary: s)
     (simp_all add: split_beta cts2_cancel_again cts2_cancel_fired seen_def)

lemma run1_register_cancel_spares:
  assumes "list_all (\<lambda>l. spares_all1 ls (beh l)) ls"
  shows "filter (\<lambda>l. l \<in> set ls)
           (invoked (snd (run1 beh (map OnCancel ls @ replicate (Suc n) Cancel) new_cts1))) = ls"
proof -
  let ?s = "(new_cts1 :: 'a cts1)\<lparr>cts1_listeners := ls\<rparr>"
  have reg: "run1 beh (map OnCancel ls) new_cts1 = (?s, [])"
    using run1_register [of new_cts1 beh ls] by (simp add: new_cts1_def)
  have s: "\<not> cts1_cancelled ?s" "cts1_listeners ?s = ls"
    by (simp_all add: new_cts1_def)
  with assms have "list_all (\<lambda>l. spares_all1 (cts1_listeners ?s) (beh l)) (cts1_listeners ?s)"
    by simp
  note first = cts1_cancel_spares [OF s(1) this]
  have "snd (run1 beh (replicate n Cancel) (fst (cts1_cancel beh ?s))) = []"
    by (rule run1_cancels_again) (rule cts1_cancel_cancelled)
  with first s(2) show ?thesis
    by (simp add: run1_append reg split_beta seen_def invoked_append)
qed

lemma run2_register_cancel:
  assumes "list_all (\<lambda>l. no_throw (beh l)) ls"
  shows "invoked (snd (run2 beh (map OnCancel ls @ replicate (Suc n) Cancel) new_cts2)) = ls"
proof -
  let ?s = "fst (run2 beh (map OnCancel ls) (new_cts2 :: 'a cts2))"
  note reg = run2_register [of beh ls new_cts2]
  have new: "cts2_listeners (new_cts2 :: 'a cts2) = []" "\<not> cts2_fired (new_cts2 :: 'a cts2)"
    by (simp_all add: cts2_listeners_def cts2_fired_def new_cts2_def)
  with reg assms have "\<not> cts2_fired ?s" "list_all (\<lambda>l. no_throw (beh l)) (cts2_listeners ?s)"
    by simp_all
  note first = cts2_cancel_no_throw [OF this]
  have "snd (run2 beh (replicate n Cancel) (fst (cts2_cancel beh ?s))) = []"
    by (rule run2_cancels_again) (rule cts2_cancel_fired)
  with first reg new show ?thesis
    by (simp add: run2_append split_beta seen_def invoked_append)
qed

text \<open>
  The first version with a listener that disposes its own registration while \<open>cancel()\<close>
  runs: the loop goes on at the next index of the array that the \<open>splice\<close> has
  shortened, so listener 2 is not invoked, now or later. The second version calls the
  copy that \<open>emit\<close> made and invokes both. With a listener that throws, the first
  version leaves the loop before it clears the list.
\<close>

lemma cts1_cancel_skips:
  "cts1_cancel beh_self_dispose \<lparr>cts1_cancelled = False, cts1_listeners = [1, 2]\<rparr>
     = (\<lparr>cts1_cancelled = True, cts1_listeners = []\<rparr>, [Invoked 1], Returned)"
  by (simp add: cts1_cancel_def loop1.simps iterated_def beh_self_dispose_def
      cts1_listener_dispose_def Let_def)

lemma cts2_cancel_calls_copy:
  "snd (run2 beh_self_dispose [OnCancel 1, OnCancel 2, Cancel] new_cts2) = [Invoked 1, Invoked 2]"
  by (simp add: cts2_defs node_defs beh_self_dispose_def Let_def)

lemma cts1_cancel_throw:
  "cts1_cancel beh_throw \<lparr>cts1_cancelled = False, cts1_listeners = [1, 2]\<rparr>
     = (\<lparr>cts1_cancelled = True, cts1_listeners = [1, 2]\<rparr>, [Invoked 1], Threw)"
  by (simp add: cts1_cancel_def loop1.simps iterated_def beh_throw_def Let_def)

text \<open>
  C6, counterexample. The claim has the listener list cleared after firing. In the second
  version \<open>cancel()\<close> invokes the listener 7, which does nothing while it runs, and
  leaves it on the emitter of the token: the list is not cleared.
\<close>

theorem cts2_listeners_kept_counterexample:
  "snd (run2 (\<lambda>l. []) [OnCancel (7::nat), Cancel] new_cts2) = [Invoked 7]
   \<and> cts2_listeners (fst (run2 (\<lambda>l. []) [OnCancel (7::nat), Cancel] new_cts2)) = [7]"
  by (simp add: cts2_defs cts2_listeners_def node_defs)

text \<open>
  C6, as amended. In both versions the signal fires at most once. The listeners that are
  attached when \<open>cancel()\<close> is first called are each invoked exactly once by that
  call, in the order of registration, provided that none of them throws and, in the first
  version, that none of them, while it runs, disposes the registration of an attached
  listener or registers an attached listener again (a listener that a running listener
  registers is, in the first version, invoked at once and with the same proviso): for
  listeners registered on a fresh source (conjuncts 1 and 2) and from any state that was
  not cancelled (conjuncts 3 and 4). The first version then holds an empty list; the
  second keeps the listeners on its emitter, as they are when they do nothing while they
  run (conjunct 5), and relies on its flag. After a \<open>cancel()\<close>, whatever the
  listeners do and whatever operations follow, a further \<open>cancel()\<close> invokes no
  listener and returns (conjuncts 6 and 7).
\<close>

theorem cancellation_fires_once:
  "(list_all (\<lambda>l. spares_all1 ls (beh l)) ls \<longrightarrow>
      filter (\<lambda>l. l \<in> set ls)
        (invoked (snd (run1 beh (map OnCancel ls @ replicate (Suc n) Cancel) new_cts1))) = ls)
   \<and> (list_all (\<lambda>l. no_throw (beh l)) ls \<longrightarrow>
      invoked (snd (run2 beh (map OnCancel ls @ replicate (Suc n) Cancel) new_cts2)) = ls)
   \<and> (\<not> cts1_cancelled s1
        \<and> list_all (\<lambda>l. spares_all1 (cts1_listeners s1) (beh l)) (cts1_listeners s1) \<longrightarrow>
        filter (\<lambda>l. l \<in> set (cts1_listeners s1)) (invoked (fst (snd (cts1_cancel beh s1))))
          = cts1_listeners s1
        \<and> snd (snd (cts1_cancel beh s1)) = Returned
        \<and> cts1_listeners (fst (cts1_cancel beh s1)) = [])
   \<and> (\<not> cts2_fired s2 \<and> list_all (\<lambda>l. no_throw (beh l)) (cts2_listeners s2) \<longrightarrow>
        invoked (fst (snd (cts2_cancel beh s2))) = cts2_listeners s2
        \<and> snd (snd (cts2_cancel beh s2)) = Returned)
   \<and> (list_all (\<lambda>l. beh l = []) (cts2_listeners s2) \<longrightarrow>
        cts2_listeners (fst (cts2_cancel beh s2)) = cts2_listeners s2)
   \<and> snd (cts1_cancel beh (fst (run1 beh ops (fst (cts1_cancel beh s1))))) = ([], Returned)
   \<and> snd (cts2_cancel beh (fst (run2 beh ops (fst (cts2_cancel beh s2))))) = ([], Returned)"
proof -
  have a1: "\<not> cts1_cancelled s1
        \<and> list_all (\<lambda>l. spares_all1 (cts1_listeners s1) (beh l)) (cts1_listeners s1) \<longrightarrow>
        filter (\<lambda>l. l \<in> set (cts1_listeners s1)) (invoked (fst (snd (cts1_cancel beh s1))))
          = cts1_listeners s1
        \<and> snd (snd (cts1_cancel beh s1)) = Returned
        \<and> cts1_listeners (fst (cts1_cancel beh s1)) = []"
    using cts1_cancel_spares [of s1 beh] by simp
  have a2: "\<not> cts2_fired s2 \<and> list_all (\<lambda>l. no_throw (beh l)) (cts2_listeners s2) \<longrightarrow>
        invoked (fst (snd (cts2_cancel beh s2))) = cts2_listeners s2
        \<and> snd (snd (cts2_cancel beh s2)) = Returned"
    using cts2_cancel_no_throw [of s2 beh] by simp
  have a3: "list_all (\<lambda>l. beh l = []) (cts2_listeners s2) \<longrightarrow>
        cts2_listeners (fst (cts2_cancel beh s2)) = cts2_listeners s2"
    using cts2_cancel_keeps [of beh s2] by simp
  have "cts1_cancelled (fst (run1 beh ops (fst (cts1_cancel beh s1))))"
    by (intro cts1_cancelled_run cts1_cancel_cancelled)
  then have b1: "snd (cts1_cancel beh (fst (run1 beh ops (fst (cts1_cancel beh s1))))) = ([], Returned)"
    by (simp add: cts1_cancel_again)
  have b2: "snd (cts2_cancel beh (fst (run2 beh ops (fst (cts2_cancel beh s2))))) = ([], Returned)"
    by (intro cts2_cancel_again cts2_fired_run cts2_cancel_fired)
  from run1_register_cancel_spares [of ls beh n] run2_register_cancel [of beh ls n] a1 a2 a3 b1 b2
  show ?thesis by blast
qed

text \<open>
  C6, witness: two listeners, of which listener 3 calls \<open>cancel()\<close>, reads the flag,
  registers listener 5 (which disposes a registration of listener 6) and calls
  \<open>dispose()\<close> while it runs, and three calls of \<open>cancel()\<close>.
\<close>

theorem cancellation_fires_once_witness:
  "list_all (\<lambda>l. spares_all1 [3, 4] (beh_calls l)) [3, 4]
   \<and> list_all (\<lambda>l. no_throw (beh_calls l)) [3, 4]
   \<and> \<not> cts1_cancelled \<lparr>cts1_cancelled = False, cts1_listeners = [3, 4 :: nat]\<rparr>
   \<and> cts1_cancel beh_calls \<lparr>cts1_cancelled = False, cts1_listeners = [3, 4]\<rparr>
       = (\<lparr>cts1_cancelled = True, cts1_listeners = []\<rparr>,
          [Invoked 3, Flag JUndefined, Invoked 5, Invoked 4], Returned)
   \<and> \<not> cts2_fired (fst (run2 beh_calls [OnCancel 3, OnCancel 4] new_cts2))
   \<and> snd (cts2_cancel beh_calls (fst (run2 beh_calls [OnCancel 3, OnCancel 4] new_cts2)))
       = ([Invoked 3, Flag (JBool True), Invoked 4], Returned)
   \<and> filter (\<lambda>l. l \<in> set [3, 4])
       (invoked (snd (run1 beh_calls [OnCancel 3, OnCancel 4, Cancel, Cancel, Cancel] new_cts1)))
       = [3, 4]
   \<and> invoked (snd (run2 beh_calls [OnCancel 3, OnCancel 4, Cancel, Cancel, Cancel] new_cts2)) = [3, 4]"
  using cancellation_fires_once [of "[3, 4]" beh_calls 2
      "\<lparr>cts1_cancelled = False, cts1_listeners = [3, 4 :: nat]\<rparr>"
      "fst (run2 beh_calls [OnCancel 3, OnCancel 4] new_cts2)" "[]"]
  by (simp add: cts2_defs cts2_listeners_def cts2_fired_def node_defs cts1_defs numeral_2_eq_2
      loop1.simps beh_calls_def no_throw_def Let_def)

subsection \<open>The two versions compared\<close>



















text \<open>
  After \<open>dispose()\<close> of a new source the first version still queues a listener and
  the second keeps it on an emitter that has fired: neither calls it until \<open>cancel()\<close>,
  and the sequence is admitted as long as the listener is gone by then.
\<close>

lemma agree_after_dispose:
  "agree_ops beh [] False False [DisposeSource, OnCancel l, DisposeListener l, Cancel]
   \<and> snd (run1 beh [DisposeSource, OnCancel l, DisposeListener l, Cancel] new_cts1) = []
   \<and> snd (run2 beh [DisposeSource, OnCancel l, DisposeListener l, Cancel] new_cts2) = []"
  by (simp add: cts1_defs cts2_defs node_defs loop1.simps Let_def)




section \<open>The spawner\<close>

lemmas spawn_defs = launch_def launch_args_def launch_cwd_def getUserDataDir_def findBrowserPath_def
  type_in_finders_def finder_keys_def object_prototype_keys_def truthy_def js_or_def startsWith_def debugPortPrefix_def debugPipeArg_def
  spawn_piped_def spawn_server_def

lemmas example_defs = host0_def params0_def quality_names_def

subsection \<open>The two ends of launch\<close>

lemma user_data_dir_not_port: "\<not> startsWith (''--user-data-dir='' @ d) debugPortPrefix"
  by (simp add: startsWith_def debugPortPrefix_def)

lemma find_port_launch_args:
  "find (\<lambda>a. startsWith a debugPortPrefix) (launch_args h sp p)
     = find (\<lambda>a. startsWith a debugPortPrefix) (lp_browserArgs p)"
proof (cases "getUserDataDir h sp p")
  case None
  then show ?thesis by (simp add: launch_args_def)
next
  case (Some d)
  with user_data_dir_not_port [of d] show ?thesis by (simp add: launch_args_def)
qed

lemma launch_found:
  assumes "findBrowserPath h (lp_type p) (cp_runtimeExecutable (lp_params p)) = Inr binary"
  shows "launch h sp p =
     (case find (\<lambda>a. startsWith a debugPortPrefix) (lp_browserArgs p) of
        None \<Rightarrow> Inr (PipedTarget (spawn_piped h p binary (launch_args h sp p) (launch_cwd h p)))
      | Some a \<Rightarrow>
          if a = debugPortPrefix
          then Inr (PipedTarget (spawn_piped h p binary (launch_args h sp p) (launch_cwd h p)))
          else Inr (ServerTarget_create
                 (spawn_server h p binary
                    (if debugPipeArg \<in> set (launch_args h sp p) then launch_args h sp p
                     else debugPipeArg # launch_args h sp p)
                    (launch_cwd h p))
                 (h_Number h (drop (length debugPortPrefix) a))))"
proof (cases "find (\<lambda>a. startsWith a debugPortPrefix) (lp_browserArgs p)")
  case None
  with assms show ?thesis
    by (simp add: launch_def find_port_launch_args truthy_def)
next
  case (Some a)
  then have "startsWith a debugPortPrefix"
    by (auto simp: find_Some_iff)
  then have "(drop (length debugPortPrefix) a = []) = (a = debugPortPrefix)"
    unfolding startsWith_def by (metis append_take_drop_id append_Nil2 drop_all order_refl drop_eq_Nil)
  with assms Some show ?thesis
    by (simp add: launch_def find_port_launch_args truthy_def Let_def)
qed

lemma launch_failed:
  "findBrowserPath h (lp_type p) (cp_runtimeExecutable (lp_params p)) = Inl e \<Longrightarrow> launch h sp p = Inl e"
  by (simp add: launch_def)

lemma launch_binary:
  assumes "launch h sp p = Inr t"
  shows "findBrowserPath h (lp_type p) (cp_runtimeExecutable (lp_params p)) = Inr (sp_binary (target_child t))"
proof (cases "findBrowserPath h (lp_type p) (cp_runtimeExecutable (lp_params p))")
  case (Inl e)
  with assms show ?thesis by (simp add: launch_failed)
next
  case (Inr binary)
  from assms launch_found [OF Inr, of sp] have "sp_binary (target_child t) = binary"
    by (auto simp: spawn_piped_def spawn_server_def split: option.splits if_splits)
  with Inr show ?thesis by simp
qed

lemma launch_child_args:
  assumes "launch h sp p = Inr t"
  shows "sp_args (target_child t)
      = (if is_piped t \<or> debugPipeArg \<in> set (launch_args h sp p) then [] else [debugPipeArg])
        @ launch_args h sp p"
proof -
  define binary where "binary = sp_binary (target_child t)"
  have "findBrowserPath h (lp_type p) (cp_runtimeExecutable (lp_params p)) = Inr binary"
    unfolding binary_def by (rule launch_binary [OF assms])
  note found = launch_found [OF this, of sp]
  show ?thesis
  proof (cases "find (\<lambda>a. startsWith a debugPortPrefix) (lp_browserArgs p)")
    case None
    with found assms
    have "t = PipedTarget (spawn_piped h p binary (launch_args h sp p) (launch_cwd h p))"
      by simp
    then show ?thesis by (simp add: spawn_piped_def)
  next
    case (Some a)
    show ?thesis
    proof (cases "a = debugPortPrefix")
      case True
      with found assms Some
      have "t = PipedTarget (spawn_piped h p binary (launch_args h sp p) (launch_cwd h p))"
        by simp
      then show ?thesis by (simp add: spawn_piped_def)
    next
      case False
      with found assms Some
      have "t = ServerTarget_create
                 (spawn_server h p binary
                    (if debugPipeArg \<in> set (launch_args h sp p) then launch_args h sp p
                     else debugPipeArg # launch_args h sp p)
                    (launch_cwd h p))
                 (h_Number h (drop (length debugPortPrefix) a))"
        by simp
      then show ?thesis by (simp add: spawn_server_def)
    qed
  qed
qed

lemma pipe_arg_launch_args:
  "(debugPipeArg \<in> set (launch_args h sp p)) = (debugPipeArg \<in> set (lp_browserArgs p))"
proof (cases "getUserDataDir h sp p")
  case None
  then show ?thesis by (simp add: launch_args_def)
next
  case (Some d)
  have "''--user-data-dir='' @ d \<noteq> debugPipeArg"
    by (simp add: debugPipeArg_def)
  with Some show ?thesis by (auto simp add: launch_args_def)
qed

subsection \<open>The descriptor of a nested distribution\<close>

text \<open>
  C3, counterexample. The parameters carry a \<open>wslInfo\<close> with \<open>execPath\<close>
  \<open>/usr/bin/node\<close>; \<open>launch\<close> spawns the browser that the finder resolved, with
  stdio ignored, and asks for a socket-backed Target on port 9222: neither the nested
  executable nor the pipe bridge.
\<close>

theorem launch_wslInfo_counterexample:
  "lp_wslInfo params0
     = Some \<lparr>wsl_execPath = ''/usr/bin/node'', wsl_distro = ''Ubuntu'', wsl_user = ''u''\<rparr>
   \<and> map_sum id (\<lambda>t. (is_piped t, sp_binary (target_child t), sp_stdio (target_child t), target_port t))
         (launch host0 ''/state'' params0)
       = Inr (False, ''/opt/chrome/chrome'', Stdio_ignore, Some ''9222'')"
  by (simp add: spawn_defs example_defs)

text \<open>
  C3, as amended. \<open>launch\<close> does not read \<open>wslInfo\<close>: its result is the same
  whatever the descriptor is, and the executable it spawns is the one
  \<open>findBrowserPath\<close> resolved.
\<close>

theorem launch_ignores_wslInfo:
  "launch h sp (p\<lparr>lp_wslInfo := w\<rparr>) = launch h sp p
   \<and> (launch h sp p = Inr t \<longrightarrow>
        findBrowserPath h (lp_type p) (cp_runtimeExecutable (lp_params p))
          = Inr (sp_binary (target_child t)))"
proof -
  have dir: "getUserDataDir h sp (p\<lparr>lp_wslInfo := w\<rparr>) = getUserDataDir h sp p"
    by (simp add: getUserDataDir_def)
  have args: "launch_args h sp (p\<lparr>lp_wslInfo := w\<rparr>) = launch_args h sp p"
    by (simp add: launch_args_def dir split: option.splits)
  have cwd: "launch_cwd h (p\<lparr>lp_wslInfo := w\<rparr>) = launch_cwd h p"
    by (simp add: launch_cwd_def)
  have piped: "spawn_piped h (p\<lparr>lp_wslInfo := w\<rparr>) = spawn_piped h p"
    by (simp add: spawn_piped_def fun_eq_iff)
  have server: "spawn_server h (p\<lparr>lp_wslInfo := w\<rparr>) = spawn_server h p"
    by (simp add: spawn_server_def fun_eq_iff)
  have "launch h sp (p\<lparr>lp_wslInfo := w\<rparr>) = launch h sp p"
    unfolding launch_def args cwd piped server by simp
  then show ?thesis
    by (simp add: launch_binary)
qed

text \<open>C3, witness: the same launch with and without the descriptor, and a launch that returns.\<close>

theorem launch_ignores_wslInfo_witness:
  "launch host0 ''/state'' (params0\<lparr>lp_wslInfo := None\<rparr>) = launch host0 ''/state'' params0
   \<and> launch host0 ''/state'' params_empty_port
       = Inr (PipedTarget (spawn_piped host0 params_empty_port ''/opt/chrome/chrome''
            [''--user-data-dir=/state/.profile'', ''--remote-debugging-port='', ''about:blank'']
            ''/srv''))
   \<and> findBrowserPath host0 ''chrome'' ''*'' = Inr ''/opt/chrome/chrome''"
  using launch_ignores_wslInfo [where h = host0 and sp = "''/state''" and p = params0 and w = None]
    launch_ignores_wslInfo [where h = host0 and sp = "''/state''" and p = params_empty_port
      and t = "PipedTarget (spawn_piped host0 params_empty_port ''/opt/chrome/chrome''
            [''--user-data-dir=/state/.profile'', ''--remote-debugging-port='', ''about:blank'']
            ''/srv'')"]
  by (simp add: spawn_defs example_defs params_empty_port_def)

subsection \<open>Pipe or socket\<close>

text \<open>
  C4, counterexample. An element of \<open>browserArgs\<close> starts with
  \<open>--remote-debugging-port=\<close> and has nothing after it: \<open>launch\<close> returns a
  pipe-backed Target with descriptors 3 and 4 as pipes.
\<close>

theorem launch_empty_port_counterexample:
  "list_ex (\<lambda>a. startsWith a debugPortPrefix) (lp_browserArgs params_empty_port)
   \<and> map_sum id (\<lambda>t. (is_piped t, sp_stdio (target_child t))) (launch host0 ''/state'' params_empty_port)
       = Inr (True, Stdio_slots [Ignore, Ignore, Ignore, Pipe, Pipe])"
  by (simp add: spawn_defs example_defs params_empty_port_def)

text \<open>
  C4, as amended. When the executable resolves, \<open>launch\<close> returns a pipe-backed
  Target, whose child has descriptors 3 and 4 opened as pipes, exactly when no element of
  \<open>browserArgs\<close> starts with \<open>--remote-debugging-port=\<close> or the first such element
  has nothing after the prefix; otherwise it spawns the child with stdio ignored and asks
  for a socket-backed Target for \<open>Number\<close> of the text after the prefix of the first
  such element.
\<close>

theorem launch_transport:
  assumes "findBrowserPath h (lp_type p) (cp_runtimeExecutable (lp_params p)) = Inr binary"
  shows "\<exists>t. launch h sp p = Inr t \<and>
     (case find (\<lambda>a. startsWith a debugPortPrefix) (lp_browserArgs p) of
        None \<Rightarrow> is_piped t \<and> sp_stdio (target_child t) = Stdio_slots [Ignore, Ignore, Ignore, Pipe, Pipe]
      | Some a \<Rightarrow>
          if a = debugPortPrefix
          then is_piped t \<and> sp_stdio (target_child t) = Stdio_slots [Ignore, Ignore, Ignore, Pipe, Pipe]
          else \<not> is_piped t \<and> sp_stdio (target_child t) = Stdio_ignore
               \<and> target_port t = Some (h_Number h (drop (length debugPortPrefix) a)))"
  using launch_found [OF assms, of sp]
  by (simp add: spawn_piped_def spawn_server_def split: option.splits)

text \<open>C4, witness: port 9222 among the arguments, the stable Chrome resolved.\<close>

theorem launch_transport_witness:
  "findBrowserPath host0 (lp_type params0) (cp_runtimeExecutable (lp_params params0))
     = Inr ''/opt/chrome/chrome''
   \<and> find (\<lambda>a. startsWith a debugPortPrefix) (lp_browserArgs params0)
       = Some ''--remote-debugging-port=9222''
   \<and> (\<exists>t. launch host0 ''/state'' params0 = Inr t \<and> \<not> is_piped t
          \<and> sp_stdio (target_child t) = Stdio_ignore \<and> target_port t = Some ''9222'')"
proof -
  have f: "findBrowserPath host0 (lp_type params0) (cp_runtimeExecutable (lp_params params0))
     = Inr ''/opt/chrome/chrome''"
    by (simp add: spawn_defs example_defs)
  have a: "find (\<lambda>a. startsWith a debugPortPrefix) (lp_browserArgs params0)
       = Some ''--remote-debugging-port=9222''"
    by (simp add: spawn_defs example_defs)
  from launch_transport [OF f, of "''/state''"] a f show ?thesis
    by (simp add: debugPortPrefix_def host0_def)
qed

subsection \<open>The executable\<close>




subsection \<open>The user data directory\<close>

text \<open>
  C10, counterexample. \<open>userDataDir\<close> is \<open>true\<close> and the arguments name a port: the
  first argument of the spawned browser is \<open>--remote-debugging-port=\<close>, and
  \<open>--user-data-dir=...\<close> is the second.
\<close>

theorem launch_user_data_dir_counterexample:
  "cp_userDataDir (lp_params params0) = UDD_bool True
   \<and> map_sum id (\<lambda>t. sp_args (target_child t)) (launch host0 ''/state'' params0)
       = Inr [''--remote-debugging-port='', ''--user-data-dir=/state/.profile'',
              ''--remote-debugging-port=9222'', ''about:blank'']"
  by (simp add: spawn_defs example_defs)

text \<open>
  C10, as amended. The directory is none when \<open>userDataDir\<close> is \<open>false\<close>, the
  requested one when it is a string naming an existing path, and otherwise
  \<open>storagePath\<close> joined with \<open>.headless-profile\<close> when \<open>browserArgs\<close> contains
  \<open>--headless\<close> and with \<open>.profile\<close> when it does not. The arguments of the spawned
  browser are \<open>browserArgs\<close>, with \<open>--user-data-dir=<dir>\<close> directly in front when
  there is a directory, and with \<open>--remote-debugging-port=\<close> in front of that when the
  Target is socket-backed and \<open>browserArgs\<close> does not hold that very argument.
\<close>

theorem launch_user_data_dir:
  assumes "launch h sp p = Inr t"
  shows "getUserDataDir h sp p
       = (case cp_userDataDir (lp_params p) of
            UDD_bool b \<Rightarrow>
              if b then Some (h_join h sp (if ''--headless'' \<in> set (lp_browserArgs p)
                                           then ''.headless-profile'' else ''.profile''))
              else None
          | UDD_string dir \<Rightarrow>
              if h_exists h dir then Some dir
              else Some (h_join h sp (if ''--headless'' \<in> set (lp_browserArgs p)
                                      then ''.headless-profile'' else ''.profile'')))
     \<and> sp_args (target_child t)
         = (if is_piped t \<or> debugPipeArg \<in> set (lp_browserArgs p) then [] else [debugPipeArg])
           @ (case getUserDataDir h sp p of
                None \<Rightarrow> []
              | Some dir \<Rightarrow> [''--user-data-dir='' @ dir])
           @ lp_browserArgs p"
proof (rule conjI)
  show "getUserDataDir h sp p
       = (case cp_userDataDir (lp_params p) of
            UDD_bool b \<Rightarrow>
              if b then Some (h_join h sp (if ''--headless'' \<in> set (lp_browserArgs p)
                                           then ''.headless-profile'' else ''.profile''))
              else None
          | UDD_string dir \<Rightarrow>
              if h_exists h dir then Some dir
              else Some (h_join h sp (if ''--headless'' \<in> set (lp_browserArgs p)
                                      then ''.headless-profile'' else ''.profile'')))"
    by (simp add: getUserDataDir_def Let_def split: user_data_dir.splits)
next
  have args: "launch_args h sp p
      = (case getUserDataDir h sp p of None \<Rightarrow> [] | Some dir \<Rightarrow> [''--user-data-dir='' @ dir])
        @ lp_browserArgs p"
    by (simp add: launch_args_def split: option.splits)
  have "sp_args (target_child t)
      = (if is_piped t \<or> debugPipeArg \<in> set (lp_browserArgs p) then [] else [debugPipeArg])
        @ launch_args h sp p"
    using launch_child_args [OF assms] by (simp only: pipe_arg_launch_args)
  then show "sp_args (target_child t)
         = (if is_piped t \<or> debugPipeArg \<in> set (lp_browserArgs p) then [] else [debugPipeArg])
           @ (case getUserDataDir h sp p of
                None \<Rightarrow> []
              | Some dir \<Rightarrow> [''--user-data-dir='' @ dir])
           @ lp_browserArgs p"
    by (simp only: args)
qed

text \<open>C10, witness: a headless launch with a requested directory that does not exist.\<close>

theorem launch_user_data_dir_witness:
  "launch host0 ''/state'' params_headless
     = Inr (PipedTarget (spawn_piped host0 params_headless ''/opt/chrome/chrome''
         [''--user-data-dir=/state/.headless-profile'', ''--headless'', ''about:blank''] ''/srv''))
   \<and> getUserDataDir host0 ''/state'' params_headless = Some ''/state/.headless-profile''
   \<and> sp_args (spawn_piped host0 params_headless ''/opt/chrome/chrome''
         [''--user-data-dir=/state/.headless-profile'', ''--headless'', ''about:blank''] ''/srv'')
       = [''--user-data-dir=/state/.headless-profile''] @ lp_browserArgs params_headless"
proof -
  have l: "launch host0 ''/state'' params_headless
     = Inr (PipedTarget (spawn_piped host0 params_headless ''/opt/chrome/chrome''
         [''--user-data-dir=/state/.headless-profile'', ''--headless'', ''about:blank''] ''/srv''))"
    by (simp add: spawn_defs example_defs params_headless_def)
  have g: "getUserDataDir host0 ''/state'' params_headless = Some ''/state/.headless-profile''"
    by (simp add: getUserDataDir_def example_defs params_headless_def)
  from launch_user_data_dir [OF l] have "sp_args (spawn_piped host0 params_headless ''/opt/chrome/chrome''
         [''--user-data-dir=/state/.headless-profile'', ''--headless'', ''about:blank''] ''/srv'')
       = [''--user-data-dir=/state/.headless-profile''] @ lp_browserArgs params_headless"
    by (simp add: g)
  with l g show ?thesis by (simp only: simp_thms)
qed

section \<open>The registry\<close>

lemma registered_exec:
  assumes "registered r i \<noteq> []" "op \<noteq> Destroy i"
  shows "registered (registry_exec spawner stop op r) i = registered r i"
proof (cases op)
  case (Create j q)
  with assms show ?thesis
    by (cases "j = i") (auto simp: create_def registered_def split: sum.splits)
next
  case (Destroy j)
  with assms have "j \<noteq> i" by auto
  then have "filter (\<lambda>e. fst e = i) (filter (\<lambda>e. fst e \<noteq> j) (reg_entries r))
      = filter (\<lambda>e. fst e = i) (reg_entries r)"
    by (auto intro: filter_cong)
  with Destroy show ?thesis
    by (simp add: destroy_def registered_def)
qed

lemma registered_run:
  "registered r i \<noteq> [] \<Longrightarrow> Destroy i \<notin> set ops \<Longrightarrow>
   registered (registry_run spawner stop ops r) i = registered r i"
proof (induction ops arbitrary: r)
  case Nil
  then show ?case by (simp add: registry_run_def)
next
  case (Cons op ops)
  from Cons.prems have step: "registered (registry_exec spawner stop op r) i = registered r i"
    by (intro registered_exec) auto
  with Cons.prems have "registered (registry_run spawner stop ops (registry_exec spawner stop op r)) i
      = registered (registry_exec spawner stop op r) i"
    by (intro Cons.IH) auto
  with step show ?case by (simp add: registry_run_def)
qed

lemma create_registers:
  assumes "create spawner i p r = (Inr (), r1)"
  shows "registered r i = []" and "\<exists>t. spawner p = Inr t \<and> registered r1 i = [t]"
  using assms by (auto simp: create_def registered_def split: if_splits sum.splits)

text \<open>
  C1. After \<open>create(i, p)\<close> succeeded, and whatever \<open>create\<close> and \<open>destroy\<close> calls
  follow as long as none is \<open>destroy(i)\<close>, exactly one Target is registered under
  \<open>i\<close>, the one that \<open>create\<close> registered, and a second \<open>create(i, p')\<close> is rejected
  and leaves the registry as it is: no entry changes and no process is spawned.
\<close>

theorem create_rejects_second:
  assumes "create spawner i p r = (Inr (), r1)" and "Destroy i \<notin> set ops"
  shows "length (registered (registry_run spawner stop ops r1) i) = 1
     \<and> registered (registry_run spawner stop ops r1) i = registered r1 i
     \<and> create spawner i p' (registry_run spawner stop ops r1)
         = (Inl (Already_registered i), registry_run spawner stop ops r1)"
proof -
  from create_registers(2) [OF assms(1)] obtain t where t: "registered r1 i = [t]"
    by blast
  with assms(2) have same: "registered (registry_run spawner stop ops r1) i = registered r1 i"
    by (intro registered_run) simp_all
  with t show ?thesis
    by (simp add: create_def)
qed

text \<open>
  C1, witness: session 7 is created with the spawner of this repository, session 8 is
  created and destroyed, and session 7 is asked for again.
\<close>

theorem create_rejects_second_witness:
  "fst (create (launch host0 ''/state'') 7 params_empty_port new_registry) = Inr ()
   \<and> Destroy 7 \<notin> set [Create 8 params0, Destroy 8]
   \<and> length (registered
         (registry_run (launch host0 ''/state'') stop0 [Create 8 params0, Destroy 8]
            (snd (create (launch host0 ''/state'') 7 params_empty_port new_registry))) 7) = 1
   \<and> fst (create (launch host0 ''/state'') 7 params0
         (registry_run (launch host0 ''/state'') stop0 [Create 8 params0, Destroy 8]
            (snd (create (launch host0 ''/state'') 7 params_empty_port new_registry))))
       = Inl (Already_registered 7)"
proof -
  have l: "launch host0 ''/state'' params_empty_port
     = Inr (PipedTarget (spawn_piped host0 params_empty_port ''/opt/chrome/chrome''
            [''--user-data-dir=/state/.profile'', ''--remote-debugging-port='', ''about:blank'']
            ''/srv''))"
    by (simp add: spawn_defs example_defs params_empty_port_def)
  have f: "fst (create (launch host0 ''/state'') 7 params_empty_port new_registry) = Inr ()"
    by (simp add: create_def registered_def new_registry_def l)
  then have c: "create (launch host0 ''/state'') 7 params_empty_port new_registry
     = (Inr (), snd (create (launch host0 ''/state'') 7 params_empty_port new_registry))"
    by (simp add: prod_eq_iff)
  have d: "Destroy 7 \<notin> set [Create 8 params0, Destroy 8]"
    by simp
  note second = create_rejects_second [OF c d, of stop0 params0]
  from second have len: "length (registered
         (registry_run (launch host0 ''/state'') stop0 [Create 8 params0, Destroy 8]
            (snd (create (launch host0 ''/state'') 7 params_empty_port new_registry))) 7) = 1"
    by (rule conjunct1)
  from second have "fst (create (launch host0 ''/state'') 7 params0
         (registry_run (launch host0 ''/state'') stop0 [Create 8 params0, Destroy 8]
            (snd (create (launch host0 ''/state'') 7 params_empty_port new_registry))))
       = Inl (Already_registered 7)"
    by simp
  with f d len show ?thesis
    by (simp only: simp_thms)
qed

text \<open>
  C2. \<open>destroy\<close> always returns. On an identifier that is not registered it leaves
  the registry as it is. On a registered one it stops the Target and removes the entry,
  and the entries of the other identifiers stay. A second \<open>destroy\<close> of the same
  identifier changes nothing more. The handler of POST /kill answers 200 for every
  identifier.
\<close>

theorem destroy_idempotent:
  "(registered r i = [] \<longrightarrow> destroy stop i r = r)
   \<and> registered (destroy stop i r) i = []
   \<and> (registered r i \<noteq> [] \<longrightarrow> reg_stopped (destroy stop i r) = reg_stopped r @ registered r i)
   \<and> (j \<noteq> i \<longrightarrow> registered (destroy stop i r) j = registered r j)
   \<and> destroy stop i (destroy stop i r) = destroy stop i r
   \<and> kill_request stop (Body_launchId (Some i)) r = (Http 200 Json_success, destroy stop i r)"
proof -
  have gone: "registered (destroy stop i r) i = []"
    by (simp add: destroy_def registered_def filter_empty_conv)
  have other: "j \<noteq> i \<longrightarrow> registered (destroy stop i r) j = registered r j"
  proof
    assume "j \<noteq> i"
    then have "filter (\<lambda>e. fst e = j) (filter (\<lambda>e. fst e \<noteq> i) (reg_entries r))
      = filter (\<lambda>e. fst e = j) (reg_entries r)"
      by (auto intro: filter_cong)
    then show "registered (destroy stop i r) j = registered r j"
      by (simp add: destroy_def registered_def)
  qed
  have again: "destroy stop i (destroy stop i r) = destroy stop i r"
    using gone by (simp add: destroy_def [of stop i "destroy stop i r"])
  from gone other again show ?thesis
    by (simp add: destroy_def kill_request_def)
qed

text \<open>C2, witness: session 7 is registered and destroyed, session 9 never existed.\<close>

theorem destroy_idempotent_witness:
  "registered (snd (create (\<lambda>p. Inr (ServerTarget_create (spawn_server host0 p ''chrome'' [] ''/srv'') ''9222''))
       7 params0 new_registry)) 7 \<noteq> []
   \<and> registered (destroy stop0 7
        (snd (create (\<lambda>p. Inr (ServerTarget_create (spawn_server host0 p ''chrome'' [] ''/srv'') ''9222''))
           7 params0 new_registry))) 7 = []
   \<and> reg_log (destroy stop0 7
        (snd (create (\<lambda>p. Inr (ServerTarget_create (spawn_server host0 p ''chrome'' [] ''/srv'') ''9222''))
           7 params0 new_registry))) = [''kill failed'']
   \<and> registered (new_registry :: string registry) 9 = []
   \<and> destroy stop0 9 new_registry = new_registry"
  using destroy_idempotent [of "snd (create (\<lambda>p. Inr (ServerTarget_create (spawn_server host0 p ''chrome'' [] ''/srv'') ''9222''))
       7 params0 new_registry)" 7 stop0 8]
    destroy_idempotent [of new_registry 9 stop0 8]
  by (simp add: create_def destroy_def registered_def new_registry_def stop0_def List.map_filter_simps)

end
